theory Spec2Isabelle
  imports Main "HOL-Library.Word" "HOL-Library.AList"
begin

section \<open>Data model\<close>

text \<open>
  The shard-role coordinator of \<^verbatim>\<open>src/pfs/route/discovery_addresser.go\<close> and the
  balancer of \<^verbatim>\<open>src/pfs/role/roler.go\<close>.

  A Go map is an association list with distinct keys: \<open>map_of\<close> reads it,
  \<open>AList.update\<close> stores (in place when the key is there, at the end otherwise),
  \<open>AList.delete\<close> deletes and \<open>length\<close> is \<open>len\<close>. Go leaves the order of a
  \<open>range\<close> over a map unspecified and draws it anew at every \<open>range\<close>. A map
  that the callback receives comes as a list in the order of its one \<open>range\<close>. In the
  assigner, every \<open>range\<close> whose order can change what is assigned or written takes
  its order from an \<open>order\<close>: a function from the place and the moment of the
  \<open>range\<close> to a rearrangement of the list, so that two of them never share an order.

  \<open>uint64\<close> values (shards, budgets) are natural numbers; the one product that can
  wrap is taken modulo \<open>2 ^ 64\<close>. \<open>int64\<close> versions are 64-bit words compared as
  signed values.
\<close>

type_synonym int64 = "64 word"
type_synonym ('k, 'v) gomap = "('k \<times> 'v) list"

definition MaxInt64 :: int64 where
  "MaxInt64 = 0x7FFFFFFFFFFFFFFF"

definition MaxUint64 :: nat where
  "MaxUint64 = 2 ^ 64 - 1"

text \<open>\<open>m[k]\<close> on a \<open>map[K]bool\<close>: the zero value \<open>false\<close> for an absent key.\<close>

definition index_bool :: "('k, bool) gomap \<Rightarrow> 'k \<Rightarrow> bool" where
  "index_bool m k = (case map_of m k of None \<Rightarrow> False | Some b \<Rightarrow> b)"

text \<open>\<open>m[k]\<close> on a \<open>map[K][]V\<close>: the nil slice for an absent key.\<close>

definition index_list :: "('k, 'v list) gomap \<Rightarrow> 'k \<Rightarrow> 'v list" where
  "index_list m k = (case map_of m k of None \<Rightarrow> [] | Some xs \<Rightarrow> xs)"

record ServerState =
  State_Id :: string
  State_Address :: string
  State_Version :: int64
  State_Shards :: "(nat, bool) gomap"

record ServerRole =
  Role_Id :: string
  Role_Version :: int64
  Masters :: "(nat, bool) gomap"
  Replicas :: "(nat, bool) gomap"

record ShardAddresses =
  Master :: string
  Addr_Replicas :: "(string, bool) gomap"

record Addresses =
  Addr_Version :: int64
  Addr_Addresses :: "(nat, ShardAddresses) gomap"

record Sharder =
  NumShards :: nat
  NumReplicas :: nat

datatype panic = DivideByZero | NilDereference

datatype error =
    ClientError string
  | UnmarshalError string
  | MarshalError string
  | ServerError string
  | ShardNotFound nat
  | RuntimePanic panic

subsection \<open>External collaborators\<close>

text \<open>
  The keys of the discovery store. The Go code builds them as paths under the
  namespace; the model keeps their components.
\<close>

datatype key =
    serverStateDir
  | serverStateKey string
  | serverRoleDir
  | serverRoleKey string
  | serverRoleKeyVersion string int64
  | addressesKey int64
  | rawKey string

text \<open>
  \<open>discovery.Client\<close> is an interface: any implementation over its own state \<open>'c\<close>.
  An operation returns its error message or its value, and the next state.
\<close>

record 'c Client =
  Get :: "key \<Rightarrow> 'c \<Rightarrow> (string + string \<times> bool) \<times> 'c"
  GetAll :: "key \<Rightarrow> 'c \<Rightarrow> (string + (key, string) gomap) \<times> 'c"
  Set :: "key \<Rightarrow> string \<Rightarrow> nat \<Rightarrow> 'c \<Rightarrow> (string + nat) \<times> 'c"
  Delete :: "key \<Rightarrow> 'c \<Rightarrow> (string + nat) \<times> 'c"

datatype call =
    CallGet key
  | CallGetAll key
  | CallSet key string nat
  | CallDelete key

text \<open>The client's state together with the calls made on it so far, oldest first.\<close>

type_synonym 'c conn = "'c \<times> call list"

definition clientGet :: "'c Client \<Rightarrow> key \<Rightarrow> 'c conn \<Rightarrow> (error + string \<times> bool) \<times> 'c conn" where
  "clientGet cl k cn =
     (case Get cl k (fst cn) of
        (Inl e, c') \<Rightarrow> (Inl (ClientError e), (c', snd cn @ [CallGet k]))
      | (Inr v, c') \<Rightarrow> (Inr v, (c', snd cn @ [CallGet k])))"

definition clientGetAll :: "'c Client \<Rightarrow> key \<Rightarrow> 'c conn \<Rightarrow> (error + (key, string) gomap) \<times> 'c conn" where
  "clientGetAll cl k cn =
     (case GetAll cl k (fst cn) of
        (Inl e, c') \<Rightarrow> (Inl (ClientError e), (c', snd cn @ [CallGetAll k]))
      | (Inr v, c') \<Rightarrow> (Inr v, (c', snd cn @ [CallGetAll k])))"

definition clientSet :: "'c Client \<Rightarrow> key \<Rightarrow> string \<Rightarrow> nat \<Rightarrow> 'c conn \<Rightarrow> (error + nat) \<times> 'c conn" where
  "clientSet cl k v ttl cn =
     (case Set cl k v ttl (fst cn) of
        (Inl e, c') \<Rightarrow> (Inl (ClientError e), (c', snd cn @ [CallSet k v ttl]))
      | (Inr i, c') \<Rightarrow> (Inr i, (c', snd cn @ [CallSet k v ttl])))"

definition clientDelete :: "'c Client \<Rightarrow> key \<Rightarrow> 'c conn \<Rightarrow> (error + nat) \<times> 'c conn" where
  "clientDelete cl k cn =
     (case Delete cl k (fst cn) of
        (Inl e, c') \<Rightarrow> (Inl (ClientError e), (c', snd cn @ [CallDelete k]))
      | (Inr i, c') \<Rightarrow> (Inr i, (c', snd cn @ [CallDelete k])))"

text \<open>\<open>jsonpb\<close>: the decoders and encoders of the stored values.\<close>

record Codec =
  unmarshalServerState :: "string \<Rightarrow> string + ServerState"
  unmarshalServerRole :: "string \<Rightarrow> string + ServerRole"
  unmarshalAddresses :: "string \<Rightarrow> string + Addresses"
  marshalServerRole :: "ServerRole \<Rightarrow> string + string"
  marshalAddresses :: "Addresses \<Rightarrow> string + string"

text \<open>
  The in-memory client of the tests: a map from keys to values that never fails.
  \<open>Get\<close> of an absent key gives the empty string and \<open>ok = false\<close>.
\<close>

fun underDir :: "key \<Rightarrow> key \<Rightarrow> bool" where
  "underDir serverStateDir (serverStateKey _) = True"
| "underDir serverRoleDir (serverRoleKey _) = True"
| "underDir serverRoleDir (serverRoleKeyVersion _ _) = True"
| "underDir (serverRoleKey i) (serverRoleKeyVersion j _) = (i = j)"
| "underDir d k = (d = k)"

definition memClient :: "((key, string) gomap) Client" where
  "memClient =
     \<lparr> Get = (\<lambda>k c. (case map_of c k of None \<Rightarrow> (Inr ([], False), c) | Some v \<Rightarrow> (Inr (v, True), c))),
       GetAll = (\<lambda>d c. (Inr (filter (\<lambda>kv. underDir d (fst kv)) c), c)),
       Set = (\<lambda>k v ttl c. (Inr 0, AList.update k v c)),
       Delete = (\<lambda>k c. (Inr 0, AList.delete k c)) \<rparr>"

section \<open>Resolver\<close>

record discoveryAddresser =
  sharder :: Sharder
  addresses :: "(int64, Addresses) gomap"

text \<open>
  \<open>getAddresses\<close> (lines 440-456). The error built for \<open>!ok\<close> is dropped, and
  the value decoded is never stored in \<open>a.addresses\<close>.
\<close>

definition getAddresses ::
  "'c Client \<Rightarrow> Codec \<Rightarrow> discoveryAddresser \<Rightarrow> int64 \<Rightarrow> 'c conn \<Rightarrow> (error + Addresses) \<times> 'c conn" where
  "getAddresses cl cod a version cn =
     (case map_of (addresses a) version of
        Some addrs \<Rightarrow> (Inr addrs, cn)
      | None \<Rightarrow>
          (case clientGet cl (addressesKey version) cn of
             (Inl err, cn') \<Rightarrow> (Inl err, cn')
           | (Inr (encodedAddresses, ok), cn') \<Rightarrow>
               (case unmarshalAddresses cod encodedAddresses of
                  Inl e \<Rightarrow> (Inl (UnmarshalError e), cn')
                | Inr addrs \<Rightarrow> (Inr addrs, cn'))))"

text \<open>\<open>GetMasterAddress\<close> (lines 36-49) returns \<open>(result, ok, retErr)\<close>.\<close>

definition GetMasterAddress ::
  "'c Client \<Rightarrow> Codec \<Rightarrow> discoveryAddresser \<Rightarrow> nat \<Rightarrow> int64 \<Rightarrow> 'c conn
     \<Rightarrow> (string \<times> bool \<times> error option) \<times> 'c conn" where
  "GetMasterAddress cl cod a shard version cn =
     (case getAddresses cl cod a version cn of
        (Inl err, cn') \<Rightarrow> (([], False, Some err), cn')
      | (Inr addrs, cn') \<Rightarrow>
          (case map_of (Addr_Addresses addrs) shard of
             None \<Rightarrow> (([], False, None), cn')
           | Some shardAddresses \<Rightarrow> ((Master shardAddresses, True, None), cn')))"

text \<open>\<open>GetReplicaAddresses\<close> (lines 51-64).\<close>

definition GetReplicaAddresses ::
  "'c Client \<Rightarrow> Codec \<Rightarrow> discoveryAddresser \<Rightarrow> nat \<Rightarrow> int64 \<Rightarrow> 'c conn
     \<Rightarrow> (error + (string, bool) gomap) \<times> 'c conn" where
  "GetReplicaAddresses cl cod a shard version cn =
     (case getAddresses cl cod a version cn of
        (Inl err, cn') \<Rightarrow> (Inl err, cn')
      | (Inr addrs, cn') \<Rightarrow>
          (case map_of (Addr_Addresses addrs) shard of
             None \<Rightarrow> (Inl (ShardNotFound shard), cn')
           | Some shardAddresses \<Rightarrow> (Inr (Addr_Replicas shardAddresses), cn')))"

text \<open>\<open>GetShardToMasterAddress\<close> (lines 66-79).\<close>

definition GetShardToMasterAddress ::
  "'c Client \<Rightarrow> Codec \<Rightarrow> discoveryAddresser \<Rightarrow> int64 \<Rightarrow> 'c conn
     \<Rightarrow> (error + (nat, string) gomap) \<times> 'c conn" where
  "GetShardToMasterAddress cl cod a version cn =
     (case getAddresses cl cod a version cn of
        (Inl err, cn') \<Rightarrow> (Inl err, cn')
      | (Inr addrs, cn') \<Rightarrow>
          (Inr (fold (\<lambda>(shard, shardAddresses) result. AList.update shard (Master shardAddresses) result)
                  (Addr_Addresses addrs) []), cn'))"

text \<open>\<open>GetShardToReplicaAddresses\<close> (lines 81-99).\<close>

definition GetShardToReplicaAddresses ::
  "'c Client \<Rightarrow> Codec \<Rightarrow> discoveryAddresser \<Rightarrow> int64 \<Rightarrow> 'c conn
     \<Rightarrow> (error + (nat, (string, bool) gomap) gomap) \<times> 'c conn" where
  "GetShardToReplicaAddresses cl cod a version cn =
     (case getAddresses cl cod a version cn of
        (Inl err, cn') \<Rightarrow> (Inl err, cn')
      | (Inr addrs, cn') \<Rightarrow>
          (Inr (fold (\<lambda>(shard, shardAddresses) result. AList.update shard (Addr_Replicas shardAddresses) result)
                  (Addr_Addresses addrs) []), cn'))"

section \<open>Version\<close>

text \<open>The loop of \<open>Version\<close> (lines 375-383) over the encoded server states.\<close>

fun versionLoop :: "Codec \<Rightarrow> (key, string) gomap \<Rightarrow> int64 \<Rightarrow> error + int64" where
  "versionLoop cod [] minVersion = Inr minVersion"
| "versionLoop cod ((k, encodedServerState) # rest) minVersion =
     (case unmarshalServerState cod encodedServerState of
        Inl e \<Rightarrow> Inl (UnmarshalError e)
      | Inr serverState \<Rightarrow>
          versionLoop cod rest
            (if State_Version serverState <s minVersion then State_Version serverState else minVersion))"

text \<open>\<open>Version\<close> (lines 366-385).\<close>

definition Version :: "'c Client \<Rightarrow> Codec \<Rightarrow> 'c conn \<Rightarrow> (error + int64) \<times> 'c conn" where
  "Version cl cod cn =
     (case clientGetAll cl serverStateDir cn of
        (Inl err, cn') \<Rightarrow> (Inl err, cn')
      | (Inr encodedServerStates, cn') \<Rightarrow> (versionLoop cod encodedServerStates MaxInt64, cn'))"

subsection \<open>A decoder for concrete runs\<close>

definition testCodec :: Codec where
  "testCodec =
     \<lparr> unmarshalServerState = (\<lambda>s.
          if s = ''a'' then Inr \<lparr>State_Id = ''a'', State_Address = ''addr-a'', State_Version = 3, State_Shards = []\<rparr>
          else if s = ''b'' then Inr \<lparr>State_Id = ''b'', State_Address = ''addr-b'', State_Version = - 1, State_Shards = []\<rparr>
          else Inl ''bad server state''),
       unmarshalServerRole = (\<lambda>s. Inl ''bad server role''),
       unmarshalAddresses = (\<lambda>s.
          if s = ''{}'' then Inr \<lparr>Addr_Version = 0, Addr_Addresses = []\<rparr>
          else if s = ''v1'' then Inr \<lparr>Addr_Version = 1, Addr_Addresses = [(0, \<lparr>Master = ''addr-a'', Addr_Replicas = []\<rparr>)]\<rparr>
          else Inl ''bad addresses''),
       marshalServerRole = (\<lambda>r. Inr (Role_Id r)),
       marshalAddresses = (\<lambda>a. Inr ''v'') \<rparr>"

text \<open>A client whose \<open>Get\<close> hands back an empty JSON object for an absent key.\<close>

definition defaultingClient :: "((key, string) gomap) Client" where
  "defaultingClient = memClient \<lparr> Get := (\<lambda>k c. (case map_of c k of None \<Rightarrow> (Inr (''{}'', False), c) | Some v \<Rightarrow> (Inr (v, True), c))) \<rparr>"

section \<open>Roler\<close>

text \<open>
  \<^verbatim>\<open>src/pfs/role/roler.go\<close>. Shards and counts are Go \<open>int\<close>s; a count is at most the
  number of entries of a map, so no addition below can overflow and they are integers.
\<close>

type_synonym counts = "(string, int) gomap"

definition MaxInt :: int where
  "MaxInt = 2 ^ 63 - 1"

text \<open>\<open>counts[address]\<close>: zero for an absent key.\<close>

definition index_int :: "('k, int) gomap \<Rightarrow> 'k \<Rightarrow> int" where
  "index_int m k = (case map_of m k of None \<Rightarrow> 0 | Some n \<Rightarrow> n)"

text \<open>\<open>openShard\<close> (lines 68-75), the loop from \<open>i\<close> on.\<close>

fun openShardLoop :: "(int, string) gomap \<Rightarrow> int list \<Rightarrow> int \<times> bool" where
  "openShardLoop shardToMasterAddress [] = (0, False)"
| "openShardLoop shardToMasterAddress (i # rest) =
     (case map_of shardToMasterAddress i of
        None \<Rightarrow> (i, True)
      | Some _ \<Rightarrow> openShardLoop shardToMasterAddress rest)"

definition openShard :: "int \<Rightarrow> (int, string) gomap \<Rightarrow> int \<times> bool" where
  "openShard numShards shardToMasterAddress =
     openShardLoop shardToMasterAddress (map int [0..<nat numShards])"

text \<open>\<open>randomShard\<close> (lines 77-91): the first shard of \<open>address\<close> in the order of the range.\<close>

fun randomShard :: "string \<Rightarrow> (int, string) gomap \<Rightarrow> int \<times> bool" where
  "randomShard address [] = (0, False)"
| "randomShard address ((shard, iAddress) # rest) =
     (if address = iAddress then (shard, True) else randomShard address rest)"

text \<open>\<open>masterCounts\<close> (lines 93-99).\<close>

fun masterCountsLoop :: "(int, string) gomap \<Rightarrow> counts \<Rightarrow> counts" where
  "masterCountsLoop [] result = result"
| "masterCountsLoop ((shard, address) # rest) result =
     masterCountsLoop rest (AList.update address (index_int result address + 1) result)"

definition masterCounts :: "(int, string) gomap \<Rightarrow> counts" where
  "masterCounts shardToMasterAddress = masterCountsLoop shardToMasterAddress []"

text \<open>\<open>minCount\<close> (lines 101-111).\<close>

fun minCountLoop :: "counts \<Rightarrow> string \<times> int \<Rightarrow> string \<times> int" where
  "minCountLoop [] (address, result) = (address, result)"
| "minCountLoop ((iAddress, count) # rest) (address, result) =
     (if count < result then minCountLoop rest (iAddress, count)
      else minCountLoop rest (address, result))"

definition minCount :: "counts \<Rightarrow> string \<times> int" where
  "minCount cs = minCountLoop cs ([], MaxInt)"

text \<open>\<open>maxCount\<close> (lines 113-123).\<close>

fun maxCountLoop :: "counts \<Rightarrow> string \<times> int \<Rightarrow> string \<times> int" where
  "maxCountLoop [] (address, result) = (address, result)"
| "maxCountLoop ((iAddress, count) # rest) (address, result) =
     (if count > result then maxCountLoop rest (iAddress, count)
      else maxCountLoop rest (address, result))"

definition maxCount :: "counts \<Rightarrow> string \<times> int" where
  "maxCount cs = maxCountLoop cs ([], 0)"

text \<open>The number of shards that an address masters in the fetched map.\<close>

definition held :: "(int, string) gomap \<Rightarrow> string \<Rightarrow> int" where
  "held m address = int (length (filter (\<lambda>kv. snd kv = address) m))"

text \<open>
  One iteration of the loop of \<open>Run\<close> (lines 21-59). \<open>fetched\<close> is what
  \<open>GetShardToMasterAddress\<close> returned and \<open>master\<close> what \<open>server.Master\<close> returns
  for a shard. The iteration either ends \<open>Run\<close> with the error of the fetch, or goes
  on to the next iteration without calling \<open>server.Master\<close>, or calls
  \<open>server.Master shard\<close>: on an error \<open>Run\<close> returns it, otherwise the hold of
  \<open>shard\<close>, taken from the address \<open>stolenFrom\<close> (empty for an open shard), is started.
\<close>

datatype outcome =
    Stopped error
  | Yielded
  | MasterCalled int string "error option"

definition iteration ::
  "string \<Rightarrow> int \<Rightarrow> (error + (int, string) gomap) \<Rightarrow> (int \<Rightarrow> error option) \<Rightarrow> outcome" where
  "iteration localAddress numShards fetched master =
     (case fetched of
        Inl err \<Rightarrow> Stopped err
      | Inr shardToMasterAddress \<Rightarrow>
          (let cs = masterCounts shardToMasterAddress;
               min = snd (minCount cs)
           in if index_int cs localAddress > min then Yielded
              else
                (case openShard numShards shardToMasterAddress of
                   (shard, True) \<Rightarrow> MasterCalled shard [] (master shard)
                 | (_, False) \<Rightarrow>
                     (let (maxAddress, max) = maxCount cs
                      in if index_int cs localAddress + 1 > max - 1 then Yielded
                         else
                           (case randomShard maxAddress shardToMasterAddress of
                              (shard, True) \<Rightarrow> MasterCalled shard maxAddress (master shard)
                            | (_, False) \<Rightarrow> Yielded)))))"

section \<open>Assigner\<close>

type_synonym roles = "(string, ServerRole) gomap"

text \<open>
  \<open>permute cs xs\<close> rearranges \<open>xs\<close>: each number of \<open>cs\<close> picks, modulo the length,
  the next element among those left; what is left over keeps its order. Every \<open>cs\<close>
  gives a rearrangement of \<open>xs\<close>, and every rearrangement is given by some \<open>cs\<close>.
\<close>

fun permute :: "nat list \<Rightarrow> 'a list \<Rightarrow> 'a list" where
  "permute [] xs = xs"
| "permute (c # cs) xs =
     (case xs of
        [] \<Rightarrow> []
      | y # ys \<Rightarrow>
          xs ! (c mod length xs)
            # permute cs (take (c mod length xs) xs @ drop (Suc (c mod length xs)) xs))"

text \<open>
  The \<open>range\<close> statements of the assigner over maps, each with the values of the loop
  variables around it that tell one execution of it from another: the source line, the
  replica index, the shard and the server ids.
\<close>

datatype site =
    RangeStoredRoles
  | RangeServersMaster nat
  | RangeServersReplica nat nat
  | RangeServersSwap nat nat
  | RangeRolesSwap nat nat string
  | RangeReplicasSwap nat nat string string
  | RangeRolesPublish
  | RangeMastersPublish string
  | RangeReplicasPublish string

type_synonym order = "site \<Rightarrow> nat list"

text \<open>The order that leaves every list as it is.\<close>

definition listOrder :: order where
  "listOrder = (\<lambda>site. [])"

text \<open>\<open>hasShard\<close> (lines 458-460).\<close>

definition hasShard :: "ServerRole \<Rightarrow> nat \<Rightarrow> bool" where
  "hasShard serverRole shard =
     (index_bool (Masters serverRole) shard \<or> index_bool (Replicas serverRole) shard)"

text \<open>\<open>removeReplica\<close> (lines 462-470).\<close>

definition removeReplica :: "(nat, string list) gomap \<Rightarrow> nat \<Rightarrow> string \<Rightarrow> (nat, string list) gomap" where
  "removeReplica replicas shard ident =
     AList.update shard (filter (\<lambda>replicaID. ident \<noteq> replicaID) (index_list replicas shard)) replicas"

text \<open>
  \<open>assignMaster\<close> (lines 472-500). The maps and the remainder behind the pointer are
  returned as they are after the call.
\<close>

definition assignMaster ::
  "roles \<Rightarrow> (nat, string) gomap \<Rightarrow> string \<Rightarrow> nat \<Rightarrow> nat \<Rightarrow> nat
     \<Rightarrow> bool \<times> roles \<times> (nat, string) gomap \<times> nat" where
  "assignMaster serverRoles masters ident shard masterRolesPerServer masterRolesRemainder =
     (case map_of serverRoles ident of
        None \<Rightarrow> (False, serverRoles, masters, masterRolesRemainder)
      | Some serverRole \<Rightarrow>
          if length (Masters serverRole) > masterRolesPerServer
            then (False, serverRoles, masters, masterRolesRemainder)
          else if length (Masters serverRole) = masterRolesPerServer \<and> masterRolesRemainder = 0
            then (False, serverRoles, masters, masterRolesRemainder)
          else if hasShard serverRole shard
            then (False, serverRoles, masters, masterRolesRemainder)
          else
            (True,
             AList.update ident (serverRole\<lparr>Masters := AList.update shard True (Masters serverRole)\<rparr>) serverRoles,
             AList.update shard ident masters,
             if length (Masters serverRole) = masterRolesPerServer \<and> masterRolesRemainder > 0
               then masterRolesRemainder - 1 else masterRolesRemainder))"

text \<open>\<open>assignReplica\<close> (lines 502-531).\<close>

definition assignReplica ::
  "roles \<Rightarrow> (nat, string) gomap \<Rightarrow> (nat, string list) gomap \<Rightarrow> string \<Rightarrow> nat \<Rightarrow> nat \<Rightarrow> nat
     \<Rightarrow> bool \<times> roles \<times> (nat, string list) gomap \<times> nat" where
  "assignReplica serverRoles masters replicas ident shard replicaRolesPerServer replicaRolesRemainder =
     (case map_of serverRoles ident of
        None \<Rightarrow> (False, serverRoles, replicas, replicaRolesRemainder)
      | Some serverRole \<Rightarrow>
          if length (Replicas serverRole) > replicaRolesPerServer
            then (False, serverRoles, replicas, replicaRolesRemainder)
          else if length (Replicas serverRole) = replicaRolesPerServer \<and> replicaRolesRemainder = 0
            then (False, serverRoles, replicas, replicaRolesRemainder)
          else if hasShard serverRole shard
            then (False, serverRoles, replicas, replicaRolesRemainder)
          else
            (True,
             AList.update ident (serverRole\<lparr>Replicas := AList.update shard True (Replicas serverRole)\<rparr>) serverRoles,
             AList.update shard (index_list replicas shard @ [ident]) replicas,
             if length (Replicas serverRole) = replicaRolesPerServer \<and> replicaRolesRemainder > 0
               then replicaRolesRemainder - 1 else replicaRolesRemainder))"

text \<open>
  \<open>swapReplica\<close> (lines 533-575). The inner loop looks for the first replica shard
  of \<open>swapServerRole\<close> that can be exchanged, the outer loop for the first server that
  has one. \<open>rolesOrder\<close> is the order of the \<open>range\<close> over \<open>serverRoles\<close> (line 548)
  and \<open>replicasOrder swapID\<close> that of the \<open>range\<close> over the replicas of \<open>swapID\<close>
  (line 552).
\<close>

fun swapShardLoop :: "ServerRole \<Rightarrow> ServerRole \<Rightarrow> nat \<Rightarrow> (nat, bool) gomap \<Rightarrow> nat option" where
  "swapShardLoop serverRole swapServerRole shard [] = None"
| "swapShardLoop serverRole swapServerRole shard ((swapShard, b) # rest) =
     (if hasShard serverRole swapShard then swapShardLoop serverRole swapServerRole shard rest
      else if hasShard swapServerRole shard then swapShardLoop serverRole swapServerRole shard rest
      else Some swapShard)"

fun swapServerLoop ::
  "(string \<Rightarrow> nat list) \<Rightarrow> string \<Rightarrow> ServerRole \<Rightarrow> nat \<Rightarrow> roles
     \<Rightarrow> (string \<times> ServerRole \<times> nat) option" where
  "swapServerLoop replicasOrder ident serverRole shard [] = None"
| "swapServerLoop replicasOrder ident serverRole shard ((swapID, swapServerRole) # rest) =
     (if swapID = ident then swapServerLoop replicasOrder ident serverRole shard rest
      else
        (case swapShardLoop serverRole swapServerRole shard
                (permute (replicasOrder swapID) (Replicas swapServerRole)) of
           Some swapShard \<Rightarrow> Some (swapID, swapServerRole, swapShard)
         | None \<Rightarrow> swapServerLoop replicasOrder ident serverRole shard rest))"

definition swapReplica ::
  "nat list \<Rightarrow> (string \<Rightarrow> nat list)
     \<Rightarrow> roles \<Rightarrow> (nat, string) gomap \<Rightarrow> (nat, string list) gomap \<Rightarrow> string \<Rightarrow> nat \<Rightarrow> nat
     \<Rightarrow> bool \<times> roles \<times> (nat, string list) gomap" where
  "swapReplica rolesOrder replicasOrder serverRoles masters replicas ident shard replicaRolesPerServer =
     (case map_of serverRoles ident of
        None \<Rightarrow> (False, serverRoles, replicas)
      | Some serverRole \<Rightarrow>
          if length (Replicas serverRole) \<ge> replicaRolesPerServer
            then (False, serverRoles, replicas)
          else
            (case swapServerLoop replicasOrder ident serverRole shard
                    (permute rolesOrder serverRoles) of
               None \<Rightarrow> (False, serverRoles, replicas)
             | Some (swapID, swapServerRole, swapShard) \<Rightarrow>
                 (let serverRoles1 = AList.update swapID
                        (swapServerRole\<lparr>Replicas := AList.delete swapShard (Replicas swapServerRole)\<rparr>)
                        serverRoles;
                      replicas1 = removeReplica replicas swapShard swapID;
                      (ok2, serverRoles2, replicas2, noReplicaRemainder2) =
                        assignReplica serverRoles1 masters replicas1 swapID shard MaxUint64 0;
                      (ok3, serverRoles3, replicas3, noReplicaRemainder3) =
                        assignReplica serverRoles2 masters replicas2 ident swapShard
                          replicaRolesPerServer noReplicaRemainder2
                  in (True, serverRoles3, replicas3))))"

text \<open>\<open>sameServers\<close> (lines 727-737).\<close>

definition sameServers :: "(string, ServerState) gomap \<Rightarrow> (string, ServerState) gomap \<Rightarrow> bool" where
  "sameServers oldServerStates newServerStates =
     (if length oldServerStates \<noteq> length newServerStates then False
      else list_all (\<lambda>(ident, s). map_of newServerStates ident \<noteq> None) oldServerStates)"

subsection \<open>The watch callback of \<open>AssignRoles\<close>\<close>

text \<open>What the closure of \<open>AssignRoles\<close> remembers between snapshots (lines 194-199).\<close>

record assigner =
  version :: int64
  oldServerStates :: "(string, ServerState) gomap"
  oldRoles :: roles
  oldMasters :: "(nat, string) gomap"
  oldReplicas :: "(nat, string list) gomap"
  oldMinVersion :: int64

definition newAssigner :: assigner where
  "newAssigner = \<lparr>version = 0, oldServerStates = [], oldRoles = [], oldMasters = [],
     oldReplicas = [], oldMinVersion = 0\<rparr>"

text \<open>
  The four budgets (lines 210-213): \<open>uint64\<close> division and remainder by the number of
  encoded server states, which panic on a zero divisor.
\<close>

definition udiv :: "nat \<Rightarrow> nat \<Rightarrow> error + nat" where
  "udiv a b = (if b = 0 then Inl (RuntimePanic DivideByZero) else Inr (a div b))"

definition umod :: "nat \<Rightarrow> nat \<Rightarrow> error + nat" where
  "umod a b = (if b = 0 then Inl (RuntimePanic DivideByZero) else Inr (a mod b))"

definition budgets :: "Sharder \<Rightarrow> nat \<Rightarrow> error + nat \<times> nat \<times> nat \<times> nat" where
  "budgets sh n =
     (case udiv (NumShards sh) n of
        Inl e \<Rightarrow> Inl e
      | Inr masterRolesPerServer \<Rightarrow>
          (case umod (NumShards sh) n of
             Inl e \<Rightarrow> Inl e
           | Inr masterRolesRemainder \<Rightarrow>
               (case udiv ((NumShards sh * NumReplicas sh) mod 2 ^ 64) n of
                  Inl e \<Rightarrow> Inl e
                | Inr replicaRolesPerServer \<Rightarrow>
                    (case umod ((NumShards sh * NumReplicas sh) mod 2 ^ 64) n of
                       Inl e \<Rightarrow> Inl e
                     | Inr replicaRolesRemainder \<Rightarrow>
                         Inr (masterRolesPerServer, masterRolesRemainder,
                              replicaRolesPerServer, replicaRolesRemainder)))))"

text \<open>The decoding loop (lines 214-229).\<close>

fun decodeLoop ::
  "Codec \<Rightarrow> int64 \<Rightarrow> (key, string) gomap
     \<Rightarrow> (string, ServerState) gomap \<times> (nat, string list) gomap \<times> roles
     \<Rightarrow> error + (string, ServerState) gomap \<times> (nat, string list) gomap \<times> roles" where
  "decodeLoop cod v [] acc = Inr acc"
| "decodeLoop cod v ((k, encodedServerState) # rest) (newServerStates, shardLocations, newRoles) =
     (case unmarshalServerState cod encodedServerState of
        Inl e \<Rightarrow> Inl (UnmarshalError e)
      | Inr serverState \<Rightarrow>
          decodeLoop cod v rest
            (AList.update (State_Id serverState) serverState newServerStates,
             fold (\<lambda>(shard, b) locs. AList.update shard (index_list locs shard @ [State_Id serverState]) locs)
               (State_Shards serverState) shardLocations,
             AList.update (State_Id serverState)
               \<lparr>Role_Id = State_Id serverState, Role_Version = v, Masters = [], Replicas = []\<rparr>
               newRoles))"

text \<open>The least version of the servers (lines 231-236).\<close>

fun minVersionLoop :: "(string, ServerState) gomap \<Rightarrow> int64 \<Rightarrow> int64" where
  "minVersionLoop [] minVersion = minVersion"
| "minVersionLoop ((ident, serverState) # rest) minVersion =
     minVersionLoop rest
       (if State_Version serverState <s minVersion then State_Version serverState else minVersion)"

text \<open>Deleting the roles below the least version (lines 244-255).\<close>

fun deleteLoop ::
  "'c Client \<Rightarrow> Codec \<Rightarrow> int64 \<Rightarrow> (key, string) gomap \<Rightarrow> 'c conn \<Rightarrow> error option \<times> 'c conn" where
  "deleteLoop cl cod minVersion [] cn = (None, cn)"
| "deleteLoop cl cod minVersion ((k, encodedServerRole) # rest) cn =
     (case unmarshalServerRole cod encodedServerRole of
        Inl e \<Rightarrow> (Some (UnmarshalError e), cn)
      | Inr serverRole \<Rightarrow>
          if Role_Version serverRole <s minVersion then
            (case clientDelete cl k cn of
               (Inl err, cn') \<Rightarrow> (Some err, cn')
             | (Inr i, cn') \<Rightarrow> deleteLoop cl cod minVersion rest cn')
          else deleteLoop cl cod minVersion rest cn)"

text \<open>
  The servers tried for a shard, in the order of lines 264-283: the old master, the old
  replicas, the servers that report the shard, then every server, in the order
  \<open>serversOrder\<close> of this \<open>range\<close> over \<open>newServerStates\<close>.
\<close>

definition candidates ::
  "assigner \<Rightarrow> (nat, string list) gomap \<Rightarrow> (string, ServerState) gomap \<Rightarrow> nat list \<Rightarrow> nat
     \<Rightarrow> string list" where
  "candidates st shardLocations newServerStates serversOrder shard =
     (case map_of (oldMasters st) shard of None \<Rightarrow> [] | Some ident \<Rightarrow> [ident])
     @ index_list (oldReplicas st) shard
     @ index_list shardLocations shard
     @ permute serversOrder (map fst newServerStates)"

fun tryAssignMaster ::
  "roles \<Rightarrow> (nat, string) gomap \<Rightarrow> string list \<Rightarrow> nat \<Rightarrow> nat \<Rightarrow> nat
     \<Rightarrow> bool \<times> roles \<times> (nat, string) gomap \<times> nat" where
  "tryAssignMaster newRoles newMasters [] shard per rem = (False, newRoles, newMasters, rem)"
| "tryAssignMaster newRoles newMasters (ident # ids) shard per rem =
     (case assignMaster newRoles newMasters ident shard per rem of
        (True, newRoles', newMasters', rem') \<Rightarrow> (True, newRoles', newMasters', rem')
      | (False, newRoles', newMasters', rem') \<Rightarrow> tryAssignMaster newRoles' newMasters' ids shard per rem')"

text \<open>The loop labelled \<open>Master\<close> (lines 262-285); \<open>None\<close> is its \<open>return 0, nil\<close>.\<close>

fun masterLoop ::
  "order \<Rightarrow> assigner \<Rightarrow> (nat, string list) gomap \<Rightarrow> (string, ServerState) gomap \<Rightarrow> nat \<Rightarrow> nat list
     \<Rightarrow> roles \<Rightarrow> (nat, string) gomap \<Rightarrow> nat \<Rightarrow> (roles \<times> (nat, string) gomap \<times> nat) option" where
  "masterLoop ord st locs newServerStates per [] newRoles newMasters rem =
     Some (newRoles, newMasters, rem)"
| "masterLoop ord st locs newServerStates per (shard # shards) newRoles newMasters rem =
     (case tryAssignMaster newRoles newMasters
             (candidates st locs newServerStates (ord (RangeServersMaster shard)) shard)
             shard per rem of
        (True, newRoles', newMasters', rem') \<Rightarrow>
          masterLoop ord st locs newServerStates per shards newRoles' newMasters' rem'
      | (False, newRoles', newMasters', rem') \<Rightarrow> None)"

fun tryAssignReplica ::
  "roles \<Rightarrow> (nat, string) gomap \<Rightarrow> (nat, string list) gomap \<Rightarrow> string list \<Rightarrow> nat \<Rightarrow> nat \<Rightarrow> nat
     \<Rightarrow> bool \<times> roles \<times> (nat, string list) gomap \<times> nat" where
  "tryAssignReplica newRoles newMasters newReplicas [] shard per rem = (False, newRoles, newReplicas, rem)"
| "tryAssignReplica newRoles newMasters newReplicas (ident # ids) shard per rem =
     (case assignReplica newRoles newMasters newReplicas ident shard per rem of
        (True, newRoles', newReplicas', rem') \<Rightarrow> (True, newRoles', newReplicas', rem')
      | (False, newRoles', newReplicas', rem') \<Rightarrow>
          tryAssignReplica newRoles' newMasters newReplicas' ids shard per rem')"

text \<open>
  The loop of lines 309-313 over the servers \<open>ids\<close>, for the replica index
  \<open>replica\<close>: each call of \<open>swapReplica\<close> draws the orders of its own two ranges.
\<close>

fun trySwapReplica ::
  "order \<Rightarrow> nat \<Rightarrow> roles \<Rightarrow> (nat, string) gomap \<Rightarrow> (nat, string list) gomap \<Rightarrow> string list \<Rightarrow> nat \<Rightarrow> nat
     \<Rightarrow> bool \<times> roles \<times> (nat, string list) gomap" where
  "trySwapReplica ord replica newRoles newMasters newReplicas [] shard per =
     (False, newRoles, newReplicas)"
| "trySwapReplica ord replica newRoles newMasters newReplicas (ident # ids) shard per =
     (case swapReplica (ord (RangeRolesSwap replica shard ident))
             (\<lambda>swapID. ord (RangeReplicasSwap replica shard ident swapID))
             newRoles newMasters newReplicas ident shard per of
        (True, newRoles', newReplicas') \<Rightarrow> (True, newRoles', newReplicas')
      | (False, newRoles', newReplicas') \<Rightarrow>
          trySwapReplica ord replica newRoles' newMasters newReplicas' ids shard per)"

text \<open>The loop labelled \<open>Replica\<close> (lines 288-315) of the replica index \<open>replica\<close>.\<close>

fun replicaShardLoop ::
  "order \<Rightarrow> nat \<Rightarrow> assigner \<Rightarrow> (nat, string list) gomap \<Rightarrow> (string, ServerState) gomap
     \<Rightarrow> (nat, string) gomap \<Rightarrow> nat
     \<Rightarrow> nat list \<Rightarrow> roles \<Rightarrow> (nat, string list) gomap \<Rightarrow> nat
     \<Rightarrow> (roles \<times> (nat, string list) gomap \<times> nat) option" where
  "replicaShardLoop ord replica st locs newServerStates newMasters per [] newRoles newReplicas rem =
     Some (newRoles, newReplicas, rem)"
| "replicaShardLoop ord replica st locs newServerStates newMasters per (shard # shards)
       newRoles newReplicas rem =
     (case tryAssignReplica newRoles newMasters newReplicas
             (candidates st locs newServerStates (ord (RangeServersReplica replica shard)) shard)
             shard per rem of
        (True, newRoles', newReplicas', rem') \<Rightarrow>
          replicaShardLoop ord replica st locs newServerStates newMasters per shards
            newRoles' newReplicas' rem'
      | (False, newRoles', newReplicas', rem') \<Rightarrow>
          (case trySwapReplica ord replica newRoles' newMasters newReplicas'
                  (permute (ord (RangeServersSwap replica shard)) (map fst newServerStates))
                  shard per of
             (True, newRoles'', newReplicas'') \<Rightarrow>
               replicaShardLoop ord replica st locs newServerStates newMasters per shards
                 newRoles'' newReplicas'' rem'
           | (False, newRoles'', newReplicas'') \<Rightarrow> None))"

text \<open>The loop over the replica indexes (lines 286-316).\<close>

fun replicaLoop ::
  "order \<Rightarrow> assigner \<Rightarrow> (nat, string list) gomap \<Rightarrow> (string, ServerState) gomap
     \<Rightarrow> (nat, string) gomap \<Rightarrow> nat
     \<Rightarrow> nat \<Rightarrow> nat list \<Rightarrow> roles \<Rightarrow> (nat, string list) gomap \<Rightarrow> nat
     \<Rightarrow> (roles \<times> (nat, string list) gomap \<times> nat) option" where
  "replicaLoop ord st locs newServerStates newMasters per numShards [] newRoles newReplicas rem =
     Some (newRoles, newReplicas, rem)"
| "replicaLoop ord st locs newServerStates newMasters per numShards (replica # rest)
       newRoles newReplicas rem =
     (case replicaShardLoop ord replica st locs newServerStates newMasters per [0..<numShards]
             newRoles newReplicas rem of
        None \<Rightarrow> None
      | Some (newRoles', newReplicas', rem') \<Rightarrow>
          replicaLoop ord st locs newServerStates newMasters per numShards rest
            newRoles' newReplicas' rem')"

text \<open>Garbage collection of the roles no server uses any more (lines 238-256).\<close>

definition collectGarbage ::
  "order \<Rightarrow> 'c Client \<Rightarrow> Codec \<Rightarrow> assigner \<Rightarrow> int64 \<Rightarrow> 'c conn
     \<Rightarrow> error option \<times> assigner \<times> 'c conn" where
  "collectGarbage ord cl cod st minVersion cn =
     (if oldMinVersion st <s minVersion then
        (case clientGetAll cl serverRoleDir cn of
           (Inl err, cn') \<Rightarrow> (Some err, st\<lparr>oldMinVersion := minVersion\<rparr>, cn')
         | (Inr serverRoles, cn') \<Rightarrow>
             (case deleteLoop cl cod minVersion (permute (ord RangeStoredRoles) serverRoles) cn' of
                (r, cn'') \<Rightarrow> (r, st\<lparr>oldMinVersion := minVersion\<rparr>, cn'')))
      else (None, st, cn))"

text \<open>
  Filling the \<open>Addresses\<close> snapshot (lines 321-343). \<open>addresses.Addresses[shard]\<close> is a
  pointer, nil for a shard that is not in the map; writing through it panics.
\<close>

fun initAddresses :: "nat list \<Rightarrow> (nat, ShardAddresses) gomap \<Rightarrow> (nat, ShardAddresses) gomap" where
  "initAddresses [] addrs = addrs"
| "initAddresses (shard # shards) addrs =
     initAddresses shards (AList.update shard \<lparr>Master = [], Addr_Replicas = []\<rparr> addrs)"

fun setMasters :: "string \<Rightarrow> (nat, bool) gomap \<Rightarrow> (nat, ShardAddresses) gomap
     \<Rightarrow> error + (nat, ShardAddresses) gomap" where
  "setMasters address [] addrs = Inr addrs"
| "setMasters address ((shard, b) # rest) addrs =
     (case map_of addrs shard of
        None \<Rightarrow> Inl (RuntimePanic NilDereference)
      | Some shardAddresses \<Rightarrow>
          setMasters address rest (AList.update shard (shardAddresses\<lparr>Master := address\<rparr>) addrs))"

fun setReplicas :: "string \<Rightarrow> (nat, bool) gomap \<Rightarrow> (nat, ShardAddresses) gomap
     \<Rightarrow> error + (nat, ShardAddresses) gomap" where
  "setReplicas address [] addrs = Inr addrs"
| "setReplicas address ((shard, b) # rest) addrs =
     (case map_of addrs shard of
        None \<Rightarrow> Inl (RuntimePanic NilDereference)
      | Some shardAddresses \<Rightarrow>
          setReplicas address rest
            (AList.update shard
               (shardAddresses\<lparr>Addr_Replicas := AList.update address True (Addr_Replicas shardAddresses)\<rparr>)
               addrs))"

text \<open>Writing one \<open>ServerRole\<close> entry per server (lines 324-344).\<close>

fun publishLoop ::
  "order \<Rightarrow> 'c Client \<Rightarrow> Codec \<Rightarrow> int64 \<Rightarrow> (string, ServerState) gomap \<Rightarrow> roles
     \<Rightarrow> (nat, ShardAddresses) gomap \<Rightarrow> 'c conn \<Rightarrow> (error + (nat, ShardAddresses) gomap) \<times> 'c conn" where
  "publishLoop ord cl cod v newServerStates [] addrs cn = (Inr addrs, cn)"
| "publishLoop ord cl cod v newServerStates ((ident, serverRole) # rest) addrs cn =
     (case marshalServerRole cod serverRole of
        Inl e \<Rightarrow> (Inl (MarshalError e), cn)
      | Inr encodedServerRole \<Rightarrow>
          (case clientSet cl (serverRoleKeyVersion ident v) encodedServerRole 0 cn of
             (Inl err, cn') \<Rightarrow> (Inl err, cn')
           | (Inr i, cn') \<Rightarrow>
               (let address = (case map_of newServerStates ident of
                                 None \<Rightarrow> [] | Some serverState \<Rightarrow> State_Address serverState)
                in case setMasters address
                          (permute (ord (RangeMastersPublish ident)) (Masters serverRole)) addrs of
                     Inl e \<Rightarrow> (Inl e, cn')
                   | Inr addrs1 \<Rightarrow>
                       (case setReplicas address
                               (permute (ord (RangeReplicasPublish ident)) (Replicas serverRole))
                               addrs1 of
                          Inl e \<Rightarrow> (Inl e, cn')
                        | Inr addrs2 \<Rightarrow> publishLoop ord cl cod v newServerStates rest addrs2 cn'))))"

text \<open>The placement (lines 262-316): masters first, then the replicas; \<open>None\<close> when a
  shard finds no server and the snapshot is abandoned.\<close>

definition place ::
  "order \<Rightarrow> assigner \<Rightarrow> Sharder \<Rightarrow> (nat, string list) gomap \<Rightarrow> (string, ServerState) gomap \<Rightarrow> roles
     \<Rightarrow> nat \<times> nat \<times> nat \<times> nat
     \<Rightarrow> (roles \<times> (nat, string) gomap \<times> (nat, string list) gomap) option" where
  "place ord st sh shardLocations newServerStates newRoles b =
     (case b of (masterRolesPerServer, masterRolesRemainder, replicaRolesPerServer, replicaRolesRemainder) \<Rightarrow>
        (case masterLoop ord st shardLocations newServerStates masterRolesPerServer [0..<NumShards sh]
                newRoles [] masterRolesRemainder of
           None \<Rightarrow> None
         | Some (newRoles1, newMasters, masterRolesRemainder1) \<Rightarrow>
             (case replicaLoop ord st shardLocations newServerStates newMasters replicaRolesPerServer
                     (NumShards sh) [0..<NumReplicas sh] newRoles1 [] replicaRolesRemainder of
                None \<Rightarrow> None
              | Some (newRoles2, newReplicas, replicaRolesRemainder1) \<Rightarrow>
                  Some (newRoles2, newMasters, newReplicas))))"

text \<open>Publishing the assignment and remembering it (lines 317-358).\<close>

definition publish ::
  "order \<Rightarrow> 'c Client \<Rightarrow> Codec \<Rightarrow> Sharder \<Rightarrow> assigner \<Rightarrow> (string, ServerState) gomap
     \<Rightarrow> roles \<times> (nat, string) gomap \<times> (nat, string list) gomap \<Rightarrow> 'c conn
     \<Rightarrow> (error + nat) \<times> assigner \<times> 'c conn" where
  "publish ord cl cod sh st newServerStates p cn =
     (case p of (newRoles, newMasters, newReplicas) \<Rightarrow>
        (case publishLoop ord cl cod (version st) newServerStates
                (permute (ord RangeRolesPublish) newRoles)
                (initAddresses [0..<NumShards sh] []) cn of
           (Inl e, cn2) \<Rightarrow> (Inl e, st, cn2)
         | (Inr addrs, cn2) \<Rightarrow>
             (case marshalAddresses cod \<lparr>Addr_Version = version st, Addr_Addresses = addrs\<rparr> of
                Inl e \<Rightarrow> (Inl (MarshalError e), st, cn2)
              | Inr encodedAddresses \<Rightarrow>
                  (case clientSet cl (addressesKey (version st)) encodedAddresses 0 cn2 of
                     (Inl err, cn3) \<Rightarrow> (Inl err, st, cn3)
                   | (Inr i, cn3) \<Rightarrow>
                       (Inr 0,
                        st\<lparr>version := version st + 1, oldServerStates := newServerStates,
                           oldRoles := newRoles, oldMasters := newMasters, oldReplicas := newReplicas\<rparr>,
                        cn3)))))"

text \<open>
  The callback that \<open>AssignRoles\<close> hands to \<open>WatchAll\<close> (lines 201-359): from the
  remembered state, the connection and a snapshot of the encoded server states (in the
  order of the \<open>range\<close> of line 214) to the returned pair, the remembered state and the
  connection afterwards. The ranges of lines 226 and 232 build a map and a minimum that
  do not depend on their order.
\<close>

definition assignRolesCallback ::
  "order \<Rightarrow> 'c Client \<Rightarrow> Codec \<Rightarrow> Sharder \<Rightarrow> assigner \<Rightarrow> 'c conn \<Rightarrow> (key, string) gomap
     \<Rightarrow> (error + nat) \<times> assigner \<times> 'c conn" where
  "assignRolesCallback ord cl cod sh st cn encodedServerStates =
     (if length encodedServerStates = 0 then (Inr 0, st, cn)
      else
        (case budgets sh (length encodedServerStates) of
           Inl e \<Rightarrow> (Inl e, st, cn)
         | Inr b \<Rightarrow>
             (case decodeLoop cod (version st) encodedServerStates ([], [], []) of
                Inl e \<Rightarrow> (Inl e, st, cn)
              | Inr (newServerStates, shardLocations, newRoles) \<Rightarrow>
                  (case collectGarbage ord cl cod st (minVersionLoop newServerStates MaxInt64) cn of
                     (Some err, st1, cn1) \<Rightarrow> (Inl err, st1, cn1)
                   | (None, st1, cn1) \<Rightarrow>
                       if sameServers (oldServerStates st1) newServerStates then (Inr 0, st1, cn1)
                       else
                         (case place ord st1 sh shardLocations newServerStates newRoles b of
                            None \<Rightarrow> (Inr 0, st1, cn1)
                          | Some p \<Rightarrow> publish ord cl cod sh st1 newServerStates p cn1)))))"

text \<open>
  A decoder of three server states, for concrete runs of the assigner, and an order
  that is the order of the lists except at one range: for the replica of shard 0, the
  servers come as the first, the third, then the second.
\<close>

definition codec2 :: Codec where
  "codec2 = testCodec \<lparr> unmarshalServerState := (\<lambda>s.
      if s = ''a'' then Inr \<lparr>State_Id = ''a'', State_Address = ''addr-a'', State_Version = - 1, State_Shards = []\<rparr>
      else if s = ''b'' then Inr \<lparr>State_Id = ''b'', State_Address = ''addr-b'', State_Version = - 1, State_Shards = []\<rparr>
      else if s = ''c'' then Inr \<lparr>State_Id = ''c'', State_Address = ''addr-c'', State_Version = - 1, State_Shards = []\<rparr>
      else Inl ''bad'') \<rparr>"

fun redrawn :: order where
  "redrawn (RangeServersReplica replica shard) = (if replica = 0 \<and> shard = 0 then [0, 1] else [])"
| "redrawn site = []"

section \<open>Registrar: applying the roles\<close>

text \<open>
  The local server is an interface over its own state \<open>'sv\<close>; \<open>AddShard\<close> and
  \<open>RemoveShard\<close> return their error, if any. The events record the calls made on the
  server and the sends on \<open>versionChan\<close>, oldest first. The goroutines of one
  \<open>WaitGroup\<close> are taken in the order in which the loop starts them; \<open>wg.Wait\<close>
  ends them before the next statement runs.
\<close>

record 'sv Server =
  AddShard :: "nat \<Rightarrow> 'sv \<Rightarrow> string option \<times> 'sv"
  RemoveShard :: "nat \<Rightarrow> 'sv \<Rightarrow> string option \<times> 'sv"

datatype event = EvAddShard nat | EvRemoveShard nat | EvVersion int64

type_synonym 'sv local = "'sv \<times> event list"

definition serverAddShard :: "'sv Server \<Rightarrow> nat \<Rightarrow> 'sv local \<Rightarrow> error option \<times> 'sv local" where
  "serverAddShard srv shard sv =
     (case AddShard srv shard (fst sv) of
        (r, s') \<Rightarrow> (map_option ServerError r, (s', snd sv @ [EvAddShard shard])))"

definition serverRemoveShard :: "'sv Server \<Rightarrow> nat \<Rightarrow> 'sv local \<Rightarrow> error option \<times> 'sv local" where
  "serverRemoveShard srv shard sv =
     (case RemoveShard srv shard (fst sv) of
        (r, s') \<Rightarrow> (map_option ServerError r, (s', snd sv @ [EvRemoveShard shard])))"

text \<open>A server that accepts every call.\<close>

definition okServer :: "unit Server" where
  "okServer = \<lparr> AddShard = (\<lambda>shard s. (None, s)), RemoveShard = (\<lambda>shard s. (None, s)) \<rparr>"

text \<open>\<open>shards\<close> (lines 707-716).\<close>

definition shards :: "ServerRole \<Rightarrow> nat list" where
  "shards serverRole = map fst (Masters serverRole) @ map fst (Replicas serverRole)"

text \<open>\<open>containsShard\<close> (lines 718-725).\<close>

fun containsShard :: "(int64, ServerRole) gomap \<Rightarrow> nat \<Rightarrow> bool" where
  "containsShard [] shard = False"
| "containsShard ((v, serverRole) # rest) shard =
     (if index_bool (Masters serverRole) shard \<or> index_bool (Replicas serverRole) shard then True
      else containsShard rest shard)"

text \<open>Decoding the roles of the snapshot (lines 633-640).\<close>

fun decodeRoles ::
  "Codec \<Rightarrow> (key, string) gomap \<Rightarrow> (int64, ServerRole) gomap \<times> int64 list
     \<Rightarrow> error + (int64, ServerRole) gomap \<times> int64 list" where
  "decodeRoles cod [] acc = Inr acc"
| "decodeRoles cod ((k, encodedServerRole) # rest) (roles, versions) =
     (case unmarshalServerRole cod encodedServerRole of
        Inl e \<Rightarrow> Inl (UnmarshalError e)
      | Inr serverRole \<Rightarrow>
          decodeRoles cod rest
            (AList.update (Role_Version serverRole) serverRole roles,
             versions @ [Role_Version serverRole]))"

text \<open>
  Adding the shards of one new version (lines 653-666); \<open>err\<close> is \<open>addShardErr\<close>, set
  once.
\<close>

fun addShards ::
  "'sv Server \<Rightarrow> (int64, ServerRole) gomap \<Rightarrow> nat list \<Rightarrow> error option \<Rightarrow> 'sv local
     \<Rightarrow> error option \<times> 'sv local" where
  "addShards srv seenRoles [] err sv = (err, sv)"
| "addShards srv seenRoles (shard # rest) err sv =
     (if \<not> containsShard seenRoles shard then
        (case serverAddShard srv shard sv of
           (r, sv') \<Rightarrow> addShards srv seenRoles rest (case err of None \<Rightarrow> r | Some e \<Rightarrow> Some e) sv')
      else addShards srv seenRoles rest err sv)"

definition zeroServerRole :: ServerRole where
  "zeroServerRole = \<lparr>Role_Id = [], Role_Version = 0, Masters = [], Replicas = []\<rparr>"

text \<open>Bringing the server up to date, version by version (lines 643-672).\<close>

fun applyVersions ::
  "'sv Server \<Rightarrow> (int64, ServerRole) gomap \<Rightarrow> int64 list \<Rightarrow> (int64, ServerRole) gomap \<Rightarrow> 'sv local
     \<Rightarrow> error option \<times> (int64, ServerRole) gomap \<times> 'sv local" where
  "applyVersions srv roles [] seenRoles sv = (None, seenRoles, sv)"
| "applyVersions srv roles (v # rest) seenRoles sv =
     (case map_of seenRoles v of
        Some seen \<Rightarrow> applyVersions srv roles rest seenRoles sv
      | None \<Rightarrow>
          (let serverRole = (case map_of roles v of None \<Rightarrow> zeroServerRole | Some r \<Rightarrow> r)
           in case addShards srv seenRoles (shards serverRole) None sv of
                (Some addShardErr, sv') \<Rightarrow> (Some addShardErr, seenRoles, sv')
              | (None, sv') \<Rightarrow>
                  applyVersions srv roles rest (AList.update v serverRole seenRoles)
                    (fst sv', snd sv' @ [EvVersion v])))"

text \<open>Removing the shards of the roles that are gone (lines 677-697).\<close>

fun removeShards ::
  "'sv Server \<Rightarrow> (int64, ServerRole) gomap \<Rightarrow> nat list \<Rightarrow> error option \<Rightarrow> 'sv local
     \<Rightarrow> error option \<times> 'sv local" where
  "removeShards srv roles [] err sv = (err, sv)"
| "removeShards srv roles (shard # rest) err sv =
     (if \<not> containsShard roles shard then
        (case serverRemoveShard srv shard sv of
           (r, sv') \<Rightarrow> removeShards srv roles rest (case err of None \<Rightarrow> r | Some e \<Rightarrow> Some e) sv')
      else removeShards srv roles rest err sv)"

fun removeLoop ::
  "'sv Server \<Rightarrow> (int64, ServerRole) gomap \<Rightarrow> (int64, ServerRole) gomap \<Rightarrow> error option \<Rightarrow> 'sv local
     \<Rightarrow> error option \<times> 'sv local" where
  "removeLoop srv roles [] err sv = (err, sv)"
| "removeLoop srv roles ((v, serverRole) # rest) err sv =
     (case map_of roles v of
        Some live \<Rightarrow> removeLoop srv roles rest err sv
      | None \<Rightarrow>
          (case removeShards srv roles (shards serverRole) err sv of
             (err', sv') \<Rightarrow> removeLoop srv roles rest err' sv'))"

text \<open>
  The callback that \<open>fillRoles\<close> hands to \<open>WatchAll\<close> (lines 629-703): from the roles
  applied so far (\<open>oldRoles\<close> in the source), the local server and a snapshot of this server's encoded roles to the
  returned pair, the roles applied and the local server afterwards.
\<close>

definition fillRolesCallback ::
  "'sv Server \<Rightarrow> Codec \<Rightarrow> (int64, ServerRole) gomap \<Rightarrow> 'sv local \<Rightarrow> (key, string) gomap
     \<Rightarrow> (error + nat) \<times> (int64, ServerRole) gomap \<times> 'sv local" where
  "fillRolesCallback srv cod seenRoles sv encodedServerRoles =
     (case decodeRoles cod encodedServerRoles ([], []) of
        Inl e \<Rightarrow> (Inl e, seenRoles, sv)
      | Inr (roles, versions) \<Rightarrow>
          (case applyVersions srv roles (sort_key sint versions) seenRoles sv of
             (Some addShardErr, seenRoles1, sv1) \<Rightarrow> (Inl addShardErr, seenRoles1, sv1)
           | (None, seenRoles1, sv1) \<Rightarrow>
               (case removeLoop srv roles seenRoles1 None sv1 of
                  (removeShardErr, sv2) \<Rightarrow>
                    ((case removeShardErr of None \<Rightarrow> Inr 0 | Some e \<Rightarrow> Inl e),
                     fold (\<lambda>(v, serverRole) m. AList.update v serverRole m) roles [],
                     sv2))))"

text \<open>The versions sent on \<open>versionChan\<close> in a list of events, and a decoder of roles.\<close>

fun announced :: "event list \<Rightarrow> int64 list" where
  "announced [] = []"
| "announced (EvVersion v # evs) = v # announced evs"
| "announced (e # evs) = announced evs"

fun isRemove :: "event \<Rightarrow> bool" where
  "isRemove (EvRemoveShard s) = True"
| "isRemove e = False"

definition roleCodec :: Codec where
  "roleCodec = testCodec \<lparr> unmarshalServerRole := (\<lambda>s.
      if s = ''r1'' then Inr \<lparr>Role_Id = ''a'', Role_Version = 1, Masters = [(0, True)], Replicas = [(1, True)]\<rparr>
      else if s = ''r2'' then Inr \<lparr>Role_Id = ''a'', Role_Version = 2, Masters = [(0, True)], Replicas = [(2, True)]\<rparr>
      else Inl ''bad server role'') \<rparr>"

section \<open>Properties of an assignment\<close>

text \<open>No server is master and replica of the same shard.\<close>

definition disjointRoles :: "roles \<Rightarrow> bool" where
  "disjointRoles rs =
     (\<forall>p\<in>set rs. \<forall>shard. \<not> (index_bool (Masters (snd p)) shard \<and> index_bool (Replicas (snd p)) shard))"

text \<open>
  The numbers of masters of the servers differ by at most one, and so do the numbers of
  replicas: the greatest minus the least is at most one.
\<close>

definition balanced :: "roles \<Rightarrow> bool" where
  "balanced rs =
     (\<forall>p\<in>set rs. \<forall>q\<in>set rs.
        length (Masters (snd p)) \<le> length (Masters (snd q)) + 1
      \<and> length (Replicas (snd p)) \<le> length (Replicas (snd q)) + 1)"

text \<open>
  The writes of one publication of the roles \<open>rs\<close> as version \<open>v\<close>: the entry of a
  server of \<open>rs\<close> with its encoded role, or the addresses of the version.
\<close>

definition publishes :: "Codec \<Rightarrow> int64 \<Rightarrow> roles \<Rightarrow> call \<Rightarrow> bool" where
  "publishes cod v rs c =
     ((\<exists>e. c = CallSet (addressesKey v) e 0)
      \<or> (\<exists>p\<in>set rs. \<exists>e. marshalServerRole cod (snd p) = Inr e
             \<and> c = CallSet (serverRoleKeyVersion (fst p) v) e 0))"

fun isSet :: "call \<Rightarrow> bool" where
  "isSet (CallSet k e ttl) = True"
| "isSet c = False"

text \<open>The roles that the decoding loop creates are empty, one per server id.\<close>

definition fresh :: "roles \<Rightarrow> bool" where
  "fresh rs = (\<forall>p\<in>set rs. Masters (snd p) = [] \<and> Replicas (snd p) = [])"

section \<open>Theorems\<close>

lemma versionLoop_min:
  "map (\<lambda>kv. unmarshalServerState cod (snd kv)) kvs = map Inr states \<Longrightarrow>
   \<exists>v. versionLoop cod kvs m = Inr v \<and> sint v \<le> sint m \<and>
       (\<forall>s\<in>set states. sint v \<le> sint (State_Version s)) \<and>
       (v = m \<or> v \<in> State_Version ` set states)"
proof (induction kvs arbitrary: m states)
  case Nil
  then show ?case by simp
next
  case (Cons kv kvs)
  obtain k e where kv: "kv = (k, e)" by (cases kv)
  from Cons.prems obtain s rest where st: "states = s # rest"
    and s: "unmarshalServerState cod e = Inr s"
    and rest: "map (\<lambda>kv. unmarshalServerState cod (snd kv)) kvs = map Inr rest"
    by (cases states) (auto simp: kv)
  let ?m = "if State_Version s <s m then State_Version s else m"
  from Cons.IH [OF rest, of ?m] obtain v where
    v: "versionLoop cod kvs ?m = Inr v" "sint v \<le> sint ?m"
      "\<forall>s\<in>set rest. sint v \<le> sint (State_Version s)"
      "v = ?m \<or> v \<in> State_Version ` set rest"
    by blast
  have "versionLoop cod (kv # kvs) m = Inr v"
    using v(1) s by (simp add: kv)
  moreover have "sint v \<le> sint m" "sint v \<le> sint (State_Version s)"
    using v(2) by (auto simp: word_sless_alt split: if_splits)
  moreover have "v = m \<or> v \<in> State_Version ` set states"
    using v(4) by (auto simp: st split: if_splits)
  ultimately show ?case using v(3) by (simp add: st)
qed

lemma sint_le_MaxInt64: "sint (v :: int64) \<le> sint MaxInt64"
proof -
  have "sint v < 2 ^ (LENGTH(64) - 1)" by (rule sint_lt)
  then show ?thesis by (simp add: MaxInt64_def)
qed

text \<open>
  C10. When the store holds no server state, \<open>Version\<close> returns \<open>MaxInt64\<close> and no
  error; when it holds server states (every value decodes), it returns the least of their
  ver fields, as signed numbers.
\<close>

theorem Version_min:
  assumes "GetAll cl serverStateDir (fst cn) = (Inr kvs, c')"
    and "map (\<lambda>kv. unmarshalServerState cod (snd kv)) kvs = map Inr states"
  shows "\<exists>v. Version cl cod cn = (Inr v, (c', snd cn @ [CallGetAll serverStateDir])) \<and>
             (states = [] \<longrightarrow> v = MaxInt64) \<and>
             (states \<noteq> [] \<longrightarrow> v \<in> State_Version ` set states \<and>
                (\<forall>s\<in>set states. sint v \<le> sint (State_Version s)))"
proof -
  from versionLoop_min [OF assms(2), of MaxInt64] obtain v where
    v: "versionLoop cod kvs MaxInt64 = Inr v"
      "\<forall>s\<in>set states. sint v \<le> sint (State_Version s)"
      "v = MaxInt64 \<or> v \<in> State_Version ` set states"
    by blast
  have run: "Version cl cod cn = (Inr v, (c', snd cn @ [CallGetAll serverStateDir]))"
    using assms(1) v(1) by (simp add: Version_def clientGetAll_def)
  have empty: "states = [] \<longrightarrow> v = MaxInt64"
    using v(3) by auto
  have mem: "v \<in> State_Version ` set states" if ne: "states \<noteq> []"
  proof (cases "v \<in> State_Version ` set states")
    case True
    then show ?thesis .
  next
    case False
    with v(3) have vm: "v = MaxInt64" by simp
    from ne obtain s where s: "s \<in> set states" by (cases states) auto
    with v(2) vm have "sint MaxInt64 \<le> sint (State_Version s)" by simp
    with sint_le_MaxInt64 [of "State_Version s"] have "sint (State_Version s) = sint MaxInt64"
      by simp
    then have "State_Version s = MaxInt64" by (rule signed_word_eqI)
    with s vm show ?thesis by force
  qed
  show ?thesis using run empty mem v(2) by blast
qed

theorem Version_min_witness:
  "Version memClient testCodec ([(serverStateKey ''a'', ''a''), (serverStateKey ''b'', ''b'')], []) =
     (Inr (- 1), ([(serverStateKey ''a'', ''a''), (serverStateKey ''b'', ''b'')], [CallGetAll serverStateDir]))
   \<and> Version memClient testCodec ([], []) = (Inr MaxInt64, ([], [CallGetAll serverStateDir]))"
proof -
  let ?c = "[(serverStateKey ''a'', ''a''), (serverStateKey ''b'', ''b'')]"
  let ?sa = "\<lparr>State_Id = ''a'', State_Address = ''addr-a'', State_Version = 3 :: int64, State_Shards = []\<rparr>"
  let ?sb = "\<lparr>State_Id = ''b'', State_Address = ''addr-b'', State_Version = - 1 :: int64, State_Shards = []\<rparr>"
  have g: "GetAll memClient serverStateDir (fst (?c, [] :: call list)) = (Inr ?c, ?c)"
    by (simp add: memClient_def)
  have d: "map (\<lambda>kv. unmarshalServerState testCodec (snd kv)) ?c = map Inr [?sa, ?sb]"
    by (simp add: testCodec_def)
  have g0: "GetAll memClient serverStateDir (fst ([] :: (key, string) gomap, [] :: call list)) = (Inr [], [])"
    by (simp add: memClient_def)
  have d0: "map (\<lambda>kv. unmarshalServerState testCodec (snd kv)) [] = map Inr []"
    by simp
  from Version_min [OF g d] have "Version memClient testCodec (?c, []) = (Inr (- 1), (?c, [CallGetAll serverStateDir]))"
    by auto
  moreover from Version_min [OF g0 d0] have "Version memClient testCodec ([], []) = (Inr MaxInt64, ([], [CallGetAll serverStateDir]))"
    by auto
  ultimately show ?thesis by simp
qed

text \<open>
  C7. For a ver the resolver can read and a shard absent from its map,
  \<open>GetMasterAddress\<close> does not return an error: it returns the empty address with
  \<open>ok = false\<close> and a nil error. \<open>GetReplicaAddresses\<close> returns an error there.
\<close>

theorem GetMasterAddress_missing_shard:
  assumes "getAddresses cl cod a ver cn = (Inr addrs, cn')"
    and "map_of (Addr_Addresses addrs) shard = None"
  shows "GetMasterAddress cl cod a shard ver cn = (([], False, None), cn')
       \<and> GetReplicaAddresses cl cod a shard ver cn = (Inl (ShardNotFound shard), cn')"
  using assms by (simp add: GetMasterAddress_def GetReplicaAddresses_def)

theorem GetMasterAddress_missing_shard_witness:
  "GetMasterAddress memClient testCodec \<lparr>sharder = \<lparr>NumShards = 2, NumReplicas = 0\<rparr>, addresses = []\<rparr> 1 1
      ([(addressesKey 1, ''v1'')], [])
     = (([], False, None), ([(addressesKey 1, ''v1'')], [CallGet (addressesKey 1)]))
   \<and> GetReplicaAddresses memClient testCodec \<lparr>sharder = \<lparr>NumShards = 2, NumReplicas = 0\<rparr>, addresses = []\<rparr> 1 1
      ([(addressesKey 1, ''v1'')], [])
     = (Inl (ShardNotFound 1), ([(addressesKey 1, ''v1'')], [CallGet (addressesKey 1)]))"
proof -
  let ?a = "\<lparr>sharder = \<lparr>NumShards = 2, NumReplicas = 0\<rparr>, addresses = []\<rparr>"
  let ?addrs = "\<lparr>Addr_Version = 1, Addr_Addresses = [(0, \<lparr>Master = ''addr-a'', Addr_Replicas = []\<rparr>)]\<rparr>"
  have g: "getAddresses memClient testCodec ?a 1 ([(addressesKey 1, ''v1'')], [])
             = (Inr ?addrs, ([(addressesKey 1, ''v1'')], [CallGet (addressesKey 1)]))"
    by (simp add: getAddresses_def clientGet_def memClient_def testCodec_def)
  have m: "map_of (Addr_Addresses ?addrs) (1::nat) = None"
    by simp
  show ?thesis using GetMasterAddress_missing_shard [OF g m] .
qed

theorem GetMasterAddress_missing_shard_counterexample:
  "snd (snd (fst (GetMasterAddress memClient testCodec
       \<lparr>sharder = \<lparr>NumShards = 2, NumReplicas = 0\<rparr>, addresses = []\<rparr> 1 1
       ([(addressesKey 1, ''v1'')], [])))) = None
   \<and> map_of [(addressesKey 1, ''v1'')] (addressesKey 1) = Some ''v1''
   \<and> unmarshalAddresses testCodec ''v1''
        = Inr \<lparr>Addr_Version = 1, Addr_Addresses = [(0, \<lparr>Master = ''addr-a'', Addr_Replicas = []\<rparr>)]\<rparr>"
  by (simp add: GetMasterAddress_def getAddresses_def clientGet_def memClient_def testCodec_def)

lemma getAddresses_missing_version:
  assumes "map_of (addresses a) ver = None"
    and "Get cl (addressesKey ver) (fst cn) = (Inr (v, False), c')"
  shows "fst (getAddresses cl cod a ver cn)
           = (case unmarshalAddresses cod v of Inl e \<Rightarrow> Inl (UnmarshalError e) | Inr addrs \<Rightarrow> Inr addrs)"
  using assms by (simp add: getAddresses_def clientGet_def split: sum.splits)

lemma getAddresses_miss_calls_Get:
  assumes "map_of (addresses a) ver = None"
  shows "snd (snd (getAddresses cl cod a ver cn)) = snd cn @ [CallGet (addressesKey ver)]"
  using assms by (simp add: getAddresses_def clientGet_def split: sum.splits prod.splits)

text \<open>
  C5. A ver that is neither cached nor in the store: \<open>getAddresses\<close> drops the
  error it builds and decodes whatever value \<open>Get\<close> handed back with \<open>ok = false\<close>,
  so the four lookups return an error only when the decoder rejects that value. With a
  client that hands back \<open>{}\<close> for the absent key, all four return without error.
\<close>

theorem missing_version_no_error:
  "map_of (addresses \<lparr>sharder = \<lparr>NumShards = 2, NumReplicas = 0\<rparr>, addresses = []\<rparr>) (7 :: int64) = None
   \<and> Get defaultingClient (addressesKey 7) [] = (Inr (''{}'', False), [])
   \<and> fst (GetMasterAddress defaultingClient testCodec
        \<lparr>sharder = \<lparr>NumShards = 2, NumReplicas = 0\<rparr>, addresses = []\<rparr> 0 7 ([], [])) = ([], False, None)
   \<and> fst (GetShardToMasterAddress defaultingClient testCodec
        \<lparr>sharder = \<lparr>NumShards = 2, NumReplicas = 0\<rparr>, addresses = []\<rparr> 7 ([], [])) = Inr []
   \<and> fst (GetShardToReplicaAddresses defaultingClient testCodec
        \<lparr>sharder = \<lparr>NumShards = 2, NumReplicas = 0\<rparr>, addresses = []\<rparr> 7 ([], [])) = Inr []
   \<and> fst (getAddresses defaultingClient testCodec
        \<lparr>sharder = \<lparr>NumShards = 2, NumReplicas = 0\<rparr>, addresses = []\<rparr> 7 ([], []))
        = Inr \<lparr>Addr_Version = 0, Addr_Addresses = []\<rparr>"
  by (simp add: GetMasterAddress_def GetShardToMasterAddress_def GetShardToReplicaAddresses_def
      getAddresses_def clientGet_def defaultingClient_def memClient_def testCodec_def)

text \<open>
  C6. The resolver never stores what it decoded: after a first successful query the
  cache is as it was, and the second query for the same shard and ver calls
  \<open>Get\<close> on the store again.
\<close>

theorem second_query_hits_store:
  "GetMasterAddress memClient testCodec \<lparr>sharder = \<lparr>NumShards = 2, NumReplicas = 0\<rparr>, addresses = []\<rparr> 0 1
      ([(addressesKey 1, ''v1'')], [])
     = ((''addr-a'', True, None), ([(addressesKey 1, ''v1'')], [CallGet (addressesKey 1)]))
   \<and> GetMasterAddress memClient testCodec \<lparr>sharder = \<lparr>NumShards = 2, NumReplicas = 0\<rparr>, addresses = []\<rparr> 0 1
      ([(addressesKey 1, ''v1'')], [CallGet (addressesKey 1)])
     = ((''addr-a'', True, None), ([(addressesKey 1, ''v1'')], [CallGet (addressesKey 1), CallGet (addressesKey 1)]))"
  by (simp add: GetMasterAddress_def getAddresses_def clientGet_def memClient_def testCodec_def)

lemma index_int_update:
  "index_int (AList.update k v m) k' = (if k' = k then v else index_int m k')"
  by (simp add: index_int_def update_conv')

lemma masterCountsLoop_index:
  "index_int (masterCountsLoop m r) a = index_int r a + int (length (filter (\<lambda>kv. snd kv = a) m))"
  by (induction m r rule: masterCountsLoop.induct) (auto simp: index_int_update)

lemma masterCountsLoop_distinct:
  "distinct (map fst r) \<Longrightarrow> distinct (map fst (masterCountsLoop m r))"
  by (induction m r rule: masterCountsLoop.induct) (auto simp: distinct_update)

lemma masterCounts_index:
  "index_int (masterCounts m) a = int (length (filter (\<lambda>kv. snd kv = a) m))"
  using masterCountsLoop_index [of m "[]" a] by (simp add: masterCounts_def index_int_def)

lemma masterCounts_distinct: "distinct (map fst (masterCounts m))"
  by (simp add: masterCounts_def masterCountsLoop_distinct)

lemma maxCountLoop_max:
  "maxCountLoop cs (a0, r0) = (a, r) \<Longrightarrow>
     r0 \<le> r \<and> (\<forall>kc\<in>set cs. snd kc \<le> r) \<and> ((a, r) = (a0, r0) \<or> (a, r) \<in> set cs)"
proof (induction cs "(a0, r0)" arbitrary: a0 r0 rule: maxCountLoop.induct)
  case (1 address result)
  then show ?case by simp
next
  case (2 iAddress count rest address result)
  then show ?case by (fastforce split: if_splits)
qed

lemma randomShard_found:
  "randomShard address m = (shard, True) \<Longrightarrow> (shard, address) \<in> set m"
  by (induction address m rule: randomShard.induct) (auto split: if_splits)

lemma index_int_entry:
  "distinct (map fst cs) \<Longrightarrow> (a, c) \<in> set cs \<Longrightarrow> index_int cs a = c"
  by (simp add: index_int_def)

lemma index_int_le_max:
  assumes "maxCount cs = (a, r)"
  shows "index_int cs b \<le> r"
proof -
  from assms have m: "0 \<le> r" "\<forall>kc\<in>set cs. snd kc \<le> r"
    using maxCountLoop_max [of cs "[]" 0 a r] by (auto simp: maxCount_def)
  show ?thesis
  proof (cases "map_of cs b")
    case None
    then show ?thesis using m(1) by (simp add: index_int_def)
  next
    case (Some c)
    then have "(b, c) \<in> set cs" by (rule map_of_SomeD)
    with m(2) have "c \<le> r" by force
    then show ?thesis using Some by (simp add: index_int_def)
  qed
qed

lemma masterCountsLoop_keys:
  "fst ` set (masterCountsLoop m r) = fst ` set r \<union> snd ` set m"
  by (induction m r rule: masterCountsLoop.induct) (auto simp: dom_update)

lemma masterCounts_entry:
  assumes "(address, c) \<in> set (masterCounts m)"
  shows "c = held m address"
proof -
  from assms have "index_int (masterCounts m) address = c"
    using masterCounts_distinct [of m] by (simp add: index_int_entry)
  then show ?thesis by (simp add: masterCounts_index held_def)
qed

lemma masterCounts_holder:
  assumes "(shard, address) \<in> set m"
  shows "(address, held m address) \<in> set (masterCounts m)"
proof -
  from assms have "address \<in> snd ` set m" by force
  then have "address \<in> fst ` set (masterCounts m)"
    using masterCountsLoop_keys [of m "[]"] by (simp add: masterCounts_def)
  then obtain c where c: "(address, c) \<in> set (masterCounts m)" by auto
  with masterCounts_entry [OF c] show ?thesis by simp
qed

lemma masterCounts_keys_hold:
  assumes "(address, c) \<in> set (masterCounts m)"
  shows "\<exists>shard. (shard, address) \<in> set m"
proof -
  from assms have "address \<in> fst ` set (masterCounts m)" by force
  then have "address \<in> snd ` set m"
    using masterCountsLoop_keys [of m "[]"] by (simp add: masterCounts_def)
  then show ?thesis by auto
qed

lemma minCountLoop_min:
  "minCountLoop cs (a0, r0) = (a, r) \<Longrightarrow>
     r \<le> r0 \<and> (\<forall>kc\<in>set cs. r \<le> snd kc) \<and> ((a, r) = (a0, r0) \<or> (a, r) \<in> set cs)"
proof (induction cs "(a0, r0)" arbitrary: a0 r0 rule: minCountLoop.induct)
  case (1 address result)
  then show ?case by simp
next
  case (2 iAddress count rest address result)
  then show ?case by (fastforce split: if_splits)
qed

text \<open>
  C8. In an iteration of \<open>Run\<close> on the fetched map \<open>m\<close>: \<open>minCount\<close> is at most the
  count of every address that masters a shard and \<open>maxCount\<close> is the greatest count; when
  some address that masters a shard holds fewer shards than the local address, the
  iteration yields without calling \<open>server.Master\<close>; when no shard is open, it yields
  whenever \<open>localCount + 1 > maxCount - 1\<close>, and if it calls \<open>server.Master\<close> then
  \<open>localCount + 1 \<le> maxCount - 1\<close>, the shard is one of the address found by
  \<open>maxCount\<close>, and that address holds the greatest count.
\<close>

theorem Run_steal_guard:
  fixes m :: "(int, string) gomap" and localAddress :: string and numShards :: int
    and master :: "int \<Rightarrow> error option"
  defines "cs \<equiv> masterCounts m"
  defines "localCount \<equiv> index_int cs localAddress"
  defines "it \<equiv> iteration localAddress numShards (Inr m) master"
  shows "(localCount > snd (minCount cs) \<longrightarrow> it = Yielded)
       \<and> (snd (openShard numShards m) = False \<longrightarrow>
            (localCount + 1 > snd (maxCount cs) - 1 \<longrightarrow> it = Yielded)
          \<and> (\<forall>shard stolenFrom res. it = MasterCalled shard stolenFrom res \<longrightarrow>
                localCount + 1 \<le> snd (maxCount cs) - 1
              \<and> \<not> localCount > snd (minCount cs)
              \<and> stolenFrom = fst (maxCount cs)
              \<and> index_int cs stolenFrom = snd (maxCount cs)
              \<and> (\<forall>address. index_int cs address \<le> index_int cs stolenFrom)
              \<and> (shard, stolenFrom) \<in> set m))
       \<and> (\<forall>address. index_int cs address = held m address)
       \<and> (\<forall>shard address. (shard, address) \<in> set m \<and> held m address < held m localAddress
             \<longrightarrow> it = Yielded)
       \<and> (\<forall>shard address. (shard, address) \<in> set m \<longrightarrow> snd (minCount cs) \<le> held m address)
       \<and> (snd (minCount cs) = MaxInt
            \<or> (\<exists>shard address. (shard, address) \<in> set m \<and> held m address = snd (minCount cs)))
       \<and> (\<forall>address. held m address \<le> snd (maxCount cs))
       \<and> (m \<noteq> [] \<longrightarrow>
            (\<exists>shard address. (shard, address) \<in> set m \<and> held m address = snd (maxCount cs)))"
proof -
  obtain maxAddress max where mx: "maxCount cs = (maxAddress, max)"
    by (cases "maxCount cs")
  obtain minAddress min where mn: "minCount cs = (minAddress, min)"
    by (cases "minCount cs")
  have held: "index_int cs address = held m address" for address
    by (simp add: cs_def masterCounts_index held_def)
  have first: "localCount > snd (minCount cs) \<longrightarrow> it = Yielded"
    by (simp add: it_def iteration_def Let_def cs_def localCount_def)
  have second: "localCount + 1 > snd (maxCount cs) - 1 \<longrightarrow> it = Yielded"
    if "snd (openShard numShards m) = False"
    using that mx
    by (cases "openShard numShards m")
      (simp add: it_def iteration_def Let_def cs_def localCount_def)
  have third: "localCount + 1 \<le> snd (maxCount cs) - 1
              \<and> \<not> localCount > snd (minCount cs)
              \<and> stolenFrom = fst (maxCount cs)
              \<and> index_int cs stolenFrom = snd (maxCount cs)
              \<and> (\<forall>address. index_int cs address \<le> index_int cs stolenFrom)
              \<and> (shard, stolenFrom) \<in> set m"
    if no: "snd (openShard numShards m) = False" and c: "it = MasterCalled shard stolenFrom res"
    for shard stolenFrom res
  proof -
    obtain s0 where os: "openShard numShards m = (s0, False)"
      using no by (cases "openShard numShards m") auto
    from c os mx have notmin: "\<not> localCount > snd (minCount cs)"
      by (auto simp: it_def iteration_def Let_def cs_def localCount_def split: if_splits)
    from c os mx notmin have guard: "localCount + 1 \<le> max - 1"
      by (auto simp: it_def iteration_def Let_def cs_def localCount_def split: if_splits)
    from c os mx notmin guard have rs: "randomShard maxAddress m = (shard, True)" and sf: "stolenFrom = maxAddress"
      by (auto simp: it_def iteration_def Let_def cs_def localCount_def split: if_splits prod.splits bool.splits)
    have "0 \<le> localCount"
      by (simp add: localCount_def cs_def masterCounts_index)
    with guard have pos: "0 < max" by simp
    from mx have "(maxAddress, max) = ([], 0) \<or> (maxAddress, max) \<in> set cs"
      using maxCountLoop_max [of cs "[]" 0 maxAddress max] by (simp add: maxCount_def)
    with pos have "(maxAddress, max) \<in> set cs" by auto
    then have im: "index_int cs maxAddress = max"
      using masterCounts_distinct [of m] by (simp add: index_int_entry cs_def)
    have "\<forall>address. index_int cs address \<le> index_int cs maxAddress"
      using index_int_le_max [OF mx] im by simp
    then show ?thesis
      using guard notmin sf im mx randomShard_found [OF rs] by simp
  qed
  from mn have minfacts: "\<forall>kc\<in>set cs. min \<le> snd kc" "(minAddress, min) = ([], MaxInt) \<or> (minAddress, min) \<in> set cs"
    using minCountLoop_min [of cs "[]" MaxInt minAddress min] by (simp_all add: minCount_def)
  have least: "snd (minCount cs) \<le> held m address" if "(shard, address) \<in> set m" for shard address
  proof -
    from that have "(address, held m address) \<in> set cs"
      unfolding cs_def by (rule masterCounts_holder)
    with minfacts(1) mn show ?thesis by force
  qed
  have fourth: "it = Yielded"
    if "(shard, address) \<in> set m" "held m address < held m localAddress" for shard address
  proof -
    from least [OF that(1)] that(2) have "localCount > snd (minCount cs)"
      by (simp add: localCount_def held)
    with first show ?thesis by simp
  qed
  have attained: "snd (minCount cs) = MaxInt
      \<or> (\<exists>shard address. (shard, address) \<in> set m \<and> held m address = snd (minCount cs))"
  proof (cases "(minAddress, min) \<in> set cs")
    case True
    then have "min = held m minAddress" unfolding cs_def by (rule masterCounts_entry)
    moreover from True obtain shard where "(shard, minAddress) \<in> set m"
      unfolding cs_def using masterCounts_keys_hold by blast
    ultimately show ?thesis using mn by auto
  next
    case False
    with minfacts(2) mn show ?thesis by simp
  qed
  have greatest: "held m address \<le> snd (maxCount cs)" for address
    using index_int_le_max [OF mx, of address] mx by (simp add: held)
  have maxattained: "\<exists>shard address. (shard, address) \<in> set m \<and> held m address = snd (maxCount cs)"
    if "m \<noteq> []"
  proof -
    from that obtain shard address where e: "(shard, address) \<in> set m" by (cases m) auto
    then have "0 < held m address"
      by (force simp: held_def filter_empty_conv)
    with greatest [of address] mx have pos: "0 < max" by simp
    from mx have "(maxAddress, max) = ([], 0) \<or> (maxAddress, max) \<in> set cs"
      using maxCountLoop_max [of cs "[]" 0 maxAddress max] by (simp add: maxCount_def)
    with pos have in_cs: "(maxAddress, max) \<in> set cs" by auto
    then have "max = held m maxAddress" unfolding cs_def by (rule masterCounts_entry)
    moreover from in_cs obtain s where "(s, maxAddress) \<in> set m"
      unfolding cs_def using masterCounts_keys_hold by blast
    ultimately show ?thesis using mx by auto
  qed
  show ?thesis
    using first second third held fourth least attained greatest maxattained by blast
qed

theorem Run_steal_guard_witness:
  "iteration ''c'' 3 (Inr [(0, ''a''), (1, ''a''), (2, ''a'')]) (\<lambda>_. None) = MasterCalled 0 ''a'' None
   \<and> snd (openShard 3 [(0, ''a''), (1, ''a''), (2, ''a'')]) = False
   \<and> index_int (masterCounts [(0, ''a''), (1, ''a''), (2, ''a'')]) ''c'' + 1
        \<le> snd (maxCount (masterCounts [(0, ''a''), (1, ''a''), (2, ''a'')])) - 1
   \<and> iteration ''b'' 3 (Inr [(0, ''a''), (1, ''a''), (2, ''b'')]) (\<lambda>_. None) = Yielded
   \<and> iteration ''a'' 3 (Inr [(0, ''a''), (1, ''a''), (2, ''b'')]) (\<lambda>_. None) = Yielded
   \<and> openShard 4 [(0, ''a''), (1, ''a''), (2, ''b'')] = (3, True)
   \<and> held [(0, ''a''), (1, ''a''), (2, ''b'')] ''b'' < held [(0, ''a''), (1, ''a''), (2, ''b'')] ''a''
   \<and> iteration ''a'' 4 (Inr [(0, ''a''), (1, ''a''), (2, ''b'')]) (\<lambda>_. None) = Yielded
   \<and> iteration ''b'' 4 (Inr [(0, ''a''), (1, ''a''), (2, ''b'')]) (\<lambda>_. None) = MasterCalled 3 [] None"
proof -
  let ?m = "[(0 :: int, ''a''), (1, ''a''), (2, ''a'')]"
  let ?m2 = "[(0 :: int, ''a''), (1, ''a''), (2, ''b'')]"
  have it: "iteration ''c'' 3 (Inr ?m) (\<lambda>_. None) = MasterCalled 0 ''a'' None"
    by (simp add: iteration_def masterCounts_def minCount_def maxCount_def openShard_def
        index_int_def MaxInt_def upt_rec)
  have os: "snd (openShard 3 ?m) = False" "snd (openShard 3 ?m2) = False"
    by (simp_all add: openShard_def upt_rec)
  have os4: "openShard 4 ?m2 = (3, True)"
    by (simp add: openShard_def upt_rec)
  have g2: "index_int (masterCounts ?m2) ''b'' + 1 > snd (maxCount (masterCounts ?m2)) - 1"
    by (simp add: masterCounts_def maxCount_def index_int_def)
  have g3: "index_int (masterCounts ?m2) ''a'' > snd (minCount (masterCounts ?m2))"
    by (simp add: masterCounts_def minCount_def index_int_def MaxInt_def)
  have h: "(2, ''b'') \<in> set ?m2 \<and> held ?m2 ''b'' < held ?m2 ''a''"
    by (simp add: held_def)
  have it4: "iteration ''b'' 4 (Inr ?m2) (\<lambda>_. None) = MasterCalled 3 [] None"
    by (simp add: iteration_def masterCounts_def minCount_def maxCount_def openShard_def
        index_int_def MaxInt_def upt_rec)
  from Run_steal_guard [of ?m "''c''" 3 "\<lambda>_. None"] it os(1)
  have a: "index_int (masterCounts ?m) ''c'' + 1 \<le> snd (maxCount (masterCounts ?m)) - 1"
    by blast
  from Run_steal_guard [of ?m2 "''b''" 3 "\<lambda>_. None"] os(2) g2
  have b: "iteration ''b'' 3 (Inr ?m2) (\<lambda>_. None) = Yielded" by blast
  from Run_steal_guard [of ?m2 "''a''" 3 "\<lambda>_. None"] g3
  have c: "iteration ''a'' 3 (Inr ?m2) (\<lambda>_. None) = Yielded" by blast
  from Run_steal_guard [of ?m2 "''a''" 4 "\<lambda>_. None"] h
  have d: "iteration ''a'' 4 (Inr ?m2) (\<lambda>_. None) = Yielded" by blast
  show ?thesis using it os(1) os4 a b c d h it4 by simp
qed

text \<open>
  C3. \<open>assignMaster\<close> returns true exactly when the server is known, does not hold the
  shard as master or replica, and has fewer than \<open>masterRolesPerServer\<close> masters, or
  exactly that many while the remainder is positive; it then records the server as
  master of the shard and, in the second case, takes one from the remainder. Otherwise
  it returns false and leaves the maps and the remainder as they were. The same holds
  for \<open>assignReplica\<close> with the replica budget.
\<close>

theorem assign_admission:
  "assignMaster serverRoles masters ident shard per rem =
     (case map_of serverRoles ident of
        None \<Rightarrow> (False, serverRoles, masters, rem)
      | Some serverRole \<Rightarrow>
          if \<not> hasShard serverRole shard
             \<and> (length (Masters serverRole) < per \<or> length (Masters serverRole) = per \<and> rem > 0)
          then (True,
                AList.update ident (serverRole\<lparr>Masters := AList.update shard True (Masters serverRole)\<rparr>) serverRoles,
                AList.update shard ident masters,
                if length (Masters serverRole) < per then rem else rem - 1)
          else (False, serverRoles, masters, rem))
   \<and> assignReplica serverRoles masters replicas ident shard per rem =
     (case map_of serverRoles ident of
        None \<Rightarrow> (False, serverRoles, replicas, rem)
      | Some serverRole \<Rightarrow>
          if \<not> hasShard serverRole shard
             \<and> (length (Replicas serverRole) < per \<or> length (Replicas serverRole) = per \<and> rem > 0)
          then (True,
                AList.update ident (serverRole\<lparr>Replicas := AList.update shard True (Replicas serverRole)\<rparr>) serverRoles,
                AList.update shard (index_list replicas shard @ [ident]) replicas,
                if length (Replicas serverRole) < per then rem else rem - 1)
          else (False, serverRoles, replicas, rem))"
  by (auto simp: assignMaster_def assignReplica_def split: option.splits)

theorem assign_admission_witness:
  "assignMaster [(''a'', \<lparr>Role_Id = ''a'', Role_Version = 0, Masters = [(0, True)], Replicas = []\<rparr>)] [(0, ''a'')] ''a'' 1 1 1
     = (True, [(''a'', \<lparr>Role_Id = ''a'', Role_Version = 0, Masters = [(0, True), (1, True)], Replicas = []\<rparr>)],
        [(0, ''a''), (1, ''a'')], 0)
   \<and> assignMaster [(''a'', \<lparr>Role_Id = ''a'', Role_Version = 0, Masters = [(0, True)], Replicas = []\<rparr>)] [(0, ''a'')] ''a'' 1 1 0
     = (False, [(''a'', \<lparr>Role_Id = ''a'', Role_Version = 0, Masters = [(0, True)], Replicas = []\<rparr>)], [(0, ''a'')], 0)"
  using assign_admission [of "[(''a'', \<lparr>Role_Id = ''a'', Role_Version = 0, Masters = [(0, True)], Replicas = []\<rparr>)]"
      "[(0, ''a'')]" "''a''" 1 1 1]
    assign_admission [of "[(''a'', \<lparr>Role_Id = ''a'', Role_Version = 0, Masters = [(0, True)], Replicas = []\<rparr>)]"
      "[(0, ''a'')]" "''a''" 1 1 0]
  by (simp add: hasShard_def index_bool_def)

lemma permute_set: "set (permute cs xs) = set xs"
proof (induction cs arbitrary: xs)
  case Nil
  then show ?case by simp
next
  case (Cons c cs)
  show ?case
  proof (cases xs)
    case Nil
    then show ?thesis by simp
  next
    case (Cons y ys)
    let ?i = "c mod length xs"
    from Cons have i: "?i < length xs" by simp
    have "set (permute (c # cs) xs) = insert (xs ! ?i) (set (take ?i xs @ drop (Suc ?i) xs))"
      using Cons Cons.IH [of "take ?i xs @ drop (Suc ?i) xs"] by simp
    also have "\<dots> = set (take ?i xs @ xs ! ?i # drop (Suc ?i) xs)" by simp
    also have "\<dots> = set xs" using id_take_nth_drop [OF i] by simp
    finally show ?thesis .
  qed
qed

lemma permute_length: "length (permute cs xs) = length xs"
proof (induction cs arbitrary: xs)
  case Nil
  then show ?case by simp
next
  case (Cons c cs)
  show ?case
  proof (cases xs)
    case Nil
    then show ?thesis by simp
  next
    case (Cons y ys)
    let ?i = "c mod length xs"
    from Cons have i: "?i < length xs" by simp
    then have "length (take ?i xs @ drop (Suc ?i) xs) = length xs - 1" by auto
    with Cons Cons.IH [of "take ?i xs @ drop (Suc ?i) xs"] show ?thesis by simp
  qed
qed

lemma budgets_error: "0 < n \<Longrightarrow> budgets sh n \<noteq> Inl e"
  by (simp add: budgets_def udiv_def umod_def)

lemma decodeLoop_error:
  "decodeLoop cod v kvs acc = Inl e \<Longrightarrow> e \<noteq> RuntimePanic DivideByZero"
  by (induction cod v kvs acc rule: decodeLoop.induct) (auto split: sum.splits)

lemma deleteLoop_error:
  "deleteLoop cl cod mv kvs cn = (Some e, cn') \<Longrightarrow> e \<noteq> RuntimePanic DivideByZero"
  by (induction cl cod mv kvs cn rule: deleteLoop.induct)
    (auto simp: clientDelete_def split: sum.splits if_splits prod.splits)

lemma collectGarbage_error:
  "collectGarbage ord cl cod st mv cn = (Some e, st', cn') \<Longrightarrow> e \<noteq> RuntimePanic DivideByZero"
  by (auto simp: collectGarbage_def clientGetAll_def split: if_splits prod.splits sum.splits
      dest: deleteLoop_error)

lemma setMasters_error:
  "setMasters address m addrs = Inl e \<Longrightarrow> e \<noteq> RuntimePanic DivideByZero"
  by (induction address m addrs rule: setMasters.induct) (auto split: option.splits)

lemma setReplicas_error:
  "setReplicas address m addrs = Inl e \<Longrightarrow> e \<noteq> RuntimePanic DivideByZero"
  by (induction address m addrs rule: setReplicas.induct) (auto split: option.splits)

lemma publishLoop_error:
  "publishLoop ord cl cod v states rs addrs cn = (Inl e, cn') \<Longrightarrow> e \<noteq> RuntimePanic DivideByZero"
  by (induction ord cl cod v states rs addrs cn rule: publishLoop.induct)
    (auto simp: clientSet_def Let_def split: sum.splits prod.splits
      dest: setMasters_error setReplicas_error)

lemma publish_error:
  "publish ord cl cod sh st states p cn = (Inl e, st', cn') \<Longrightarrow> e \<noteq> RuntimePanic DivideByZero"
  by (auto simp: publish_def clientSet_def split: sum.splits prod.splits dest: publishLoop_error)

lemma publish_no_division:
  "fst (publish ord cl cod sh st states p cn) \<noteq> Inl (RuntimePanic DivideByZero)"
proof
  assume a: "fst (publish ord cl cod sh st states p cn) = Inl (RuntimePanic DivideByZero)"
  obtain r st' cn' where "publish ord cl cod sh st states p cn = (r, st', cn')"
    by (cases "publish ord cl cod sh st states p cn")
  with a show False using publish_error by fastforce
qed

text \<open>
  C9. On an empty map of server states the callback returns at once with no error, calls
  nothing on the store and leaves what the assigner remembers as it was; and on no
  snapshot at all does it divide by zero.
\<close>

theorem assignRolesCallback_empty:
  "assignRolesCallback ord cl cod sh st cn [] = (Inr 0, st, cn)
   \<and> fst (assignRolesCallback ord cl cod sh st cn encodedServerStates) \<noteq> Inl (RuntimePanic DivideByZero)"
proof -
  have first: "assignRolesCallback ord cl cod sh st cn [] = (Inr 0, st, cn)"
    by (simp add: assignRolesCallback_def)
  have second: "fst (assignRolesCallback ord cl cod sh st cn encodedServerStates) \<noteq> Inl (RuntimePanic DivideByZero)"
  proof (cases "encodedServerStates = []")
    case True
    then show ?thesis using first by simp
  next
    case False
    then have n: "0 < length encodedServerStates" by simp
    then obtain b where b: "budgets sh (length encodedServerStates) = Inr b"
      using budgets_error [OF n, of sh] by (cases "budgets sh (length encodedServerStates)") auto
    show ?thesis
      using False b
      by (auto simp: assignRolesCallback_def split: sum.splits prod.splits option.splits
          dest: decodeLoop_error collectGarbage_error simp: publish_no_division)
  qed
  show ?thesis using first second by simp
qed

theorem assignRolesCallback_empty_witness:
  "assignRolesCallback listOrder memClient codec2 \<lparr>NumShards = 3, NumReplicas = 1\<rparr> newAssigner ([], []) []
     = (Inr 0, newAssigner, ([], []))"
  using assignRolesCallback_empty [of listOrder memClient codec2 "\<lparr>NumShards = 3, NumReplicas = 1\<rparr>" newAssigner "([], [])" "[]"]
  by simp

lemma addShards_events:
  "addShards srv seen ss err sv = (r, sv') \<Longrightarrow>
     \<exists>evs. snd sv' = snd sv @ evs \<and> (\<forall>e\<in>set evs. \<not> isRemove e) \<and> announced evs = []"
proof (induction srv seen ss err sv arbitrary: r sv' rule: addShards.induct)
  case (1 srv seen err sv)
  then show ?case by simp
next
  case (2 srv seen shard rest err sv)
  show ?case
  proof (cases "containsShard seen shard")
    case True
    with 2 show ?thesis by simp
  next
    case False
    obtain r1 sv1 where s: "serverAddShard srv shard sv = (r1, sv1)"
      by (cases "serverAddShard srv shard sv")
    then have sv1: "snd sv1 = snd sv @ [EvAddShard shard]"
      by (auto simp: serverAddShard_def split: prod.splits)
    from "2.prems" False s
    have "addShards srv seen rest (case err of None \<Rightarrow> r1 | Some e \<Rightarrow> Some e) sv1 = (r, sv')"
      by simp
    from "2.IH"(1) [OF False s [symmetric] this] obtain evs where
      "snd sv' = snd sv1 @ evs" "\<forall>e\<in>set evs. \<not> isRemove e" "announced evs = []"
      by blast
    then have "snd sv' = snd sv @ (EvAddShard shard # evs) \<and>
        (\<forall>e\<in>set (EvAddShard shard # evs). \<not> isRemove e) \<and> announced (EvAddShard shard # evs) = []"
      using sv1 by simp
    then show ?thesis by blast
  qed
qed

lemma announced_append: "announced (xs @ ys) = announced xs @ announced ys"
  by (induction xs rule: announced.induct) auto

lemma applyVersions_events:
  "applyVersions srv roles vs seen sv = (r, seen', sv') \<Longrightarrow>
     \<exists>evs. snd sv' = snd sv @ evs \<and> (\<forall>e\<in>set evs. \<not> isRemove e)
        \<and> set (announced evs) \<subseteq> set vs - dom (map_of seen)
        \<and> (sorted (map sint vs) \<longrightarrow> sorted_wrt (<) (map sint (announced evs)))"
proof (induction vs arbitrary: seen sv r seen' sv')
  case Nil
  then show ?case by simp
next
  case (Cons v rest)
  show ?case
  proof (cases "map_of seen v")
    case (Some a)
    with Cons.prems have "applyVersions srv roles rest seen sv = (r, seen', sv')" by simp
    from Cons.IH [OF this] show ?thesis by auto
  next
    case None
    let ?role = "case map_of roles v of None \<Rightarrow> zeroServerRole | Some r \<Rightarrow> r"
    obtain e1 sv1 where a: "addShards srv seen (shards ?role) None sv = (e1, sv1)"
      by (cases "addShards srv seen (shards ?role) None sv")
    from addShards_events [OF a] obtain evs1 where
      evs1: "snd sv1 = snd sv @ evs1" "\<forall>e\<in>set evs1. \<not> isRemove e" "announced evs1 = []"
      by blast
    show ?thesis
    proof (cases e1)
      case (Some err)
      with Cons.prems None a have "sv' = sv1" by (simp add: Let_def)
      with evs1 show ?thesis by auto
    next
      case noerr: None
      with Cons.prems None a
      have rec: "applyVersions srv roles rest (AList.update v ?role seen)
                   (fst sv1, snd sv1 @ [EvVersion v]) = (r, seen', sv')"
        by (simp add: Let_def)
      from Cons.IH [OF rec] obtain evs2 where
        evs2: "snd sv' = (snd sv1 @ [EvVersion v]) @ evs2" "\<forall>e\<in>set evs2. \<not> isRemove e"
          "set (announced evs2) \<subseteq> set rest - dom (map_of (AList.update v ?role seen))"
          "sorted (map sint rest) \<longrightarrow> sorted_wrt (<) (map sint (announced evs2))"
        by auto
      let ?evs = "evs1 @ EvVersion v # evs2"
      have t: "snd sv' = snd sv @ ?evs"
        using evs1(1) evs2(1) by simp
      have nr: "\<forall>e\<in>set ?evs. \<not> isRemove e"
        using evs1(2) evs2(2) by auto
      have an: "announced ?evs = v # announced evs2"
        using evs1(3) by (simp add: announced_append)
      have sub: "set (announced evs2) \<subseteq> set rest - insert v (dom (map_of seen))"
        using evs2(3) by (simp add: update_conv')
      have s1: "set (announced ?evs) \<subseteq> set (v # rest) - dom (map_of seen)"
        using an sub None by auto
      have s2: "sorted_wrt (<) (map sint (announced ?evs))" if so: "sorted (map sint (v # rest))"
      proof -
        have "sint v < sint w" if w: "w \<in> set (announced evs2)" for w
        proof -
          from w sub have "w \<in> set rest" "w \<noteq> v" by auto
          with so have "sint v \<le> sint w" by auto
          moreover have "sint v \<noteq> sint w"
            using \<open>w \<noteq> v\<close> by (auto dest: signed_word_eqI)
          ultimately show ?thesis by simp
        qed
        moreover from so evs2(4) have "sorted_wrt (<) (map sint (announced evs2))" by simp
        ultimately show ?thesis using an by (auto simp: sorted_wrt_map)
      qed
      show ?thesis using t nr s1 s2 by blast
    qed
  qed
qed

lemma containsShard_iff:
  "containsShard roles shard \<longleftrightarrow>
     (\<exists>vr\<in>set roles. index_bool (Masters (snd vr)) shard \<or> index_bool (Replicas (snd vr)) shard)"
  by (induction roles shard rule: containsShard.induct) auto

lemma removeShards_events:
  "removeShards srv roles ss err sv = (r, sv') \<Longrightarrow>
     \<exists>evs. snd sv' = snd sv @ evs \<and>
        (\<forall>e\<in>set evs. \<exists>s. e = EvRemoveShard s \<and> s \<in> set ss \<and> \<not> containsShard roles s)"
proof (induction srv roles ss err sv arbitrary: r sv' rule: removeShards.induct)
  case (1 srv roles err sv)
  then show ?case by simp
next
  case (2 srv roles shard rest err sv)
  show ?case
  proof (cases "containsShard roles shard")
    case True
    with 2 show ?thesis by fastforce
  next
    case False
    obtain r1 sv1 where s: "serverRemoveShard srv shard sv = (r1, sv1)"
      by (cases "serverRemoveShard srv shard sv")
    then have sv1: "snd sv1 = snd sv @ [EvRemoveShard shard]"
      by (auto simp: serverRemoveShard_def split: prod.splits)
    from "2.prems" False s
    have "removeShards srv roles rest (case err of None \<Rightarrow> r1 | Some e \<Rightarrow> Some e) sv1 = (r, sv')"
      by simp
    from "2.IH"(1) [OF False s [symmetric] this] obtain evs where
      evs: "snd sv' = snd sv1 @ evs"
        "\<forall>e\<in>set evs. \<exists>s. e = EvRemoveShard s \<and> s \<in> set rest \<and> \<not> containsShard roles s"
      by blast
    have "snd sv' = snd sv @ (EvRemoveShard shard # evs)"
      using evs(1) sv1 by simp
    moreover have "\<forall>e\<in>set (EvRemoveShard shard # evs).
        \<exists>s. e = EvRemoveShard s \<and> s \<in> set (shard # rest) \<and> \<not> containsShard roles s"
      using evs(2) False by auto
    ultimately show ?thesis by blast
  qed
qed

lemma removeLoop_events:
  "removeLoop srv roles seen err sv = (r, sv') \<Longrightarrow>
     \<exists>evs. snd sv' = snd sv @ evs \<and>
        (\<forall>e\<in>set evs. \<exists>s. e = EvRemoveShard s \<and> \<not> containsShard roles s
            \<and> (\<exists>vr\<in>set seen. map_of roles (fst vr) = None \<and> s \<in> set (shards (snd vr))))"
proof (induction srv roles seen err sv arbitrary: r sv' rule: removeLoop.induct)
  case (1 srv roles err sv)
  then show ?case by simp
next
  case (2 srv roles v serverRole rest err sv)
  show ?case
  proof (cases "map_of roles v")
    case (Some a)
    with "2.prems" have "removeLoop srv roles rest err sv = (r, sv')" by simp
    from "2.IH"(2) [OF Some this] show ?thesis by fastforce
  next
    case None
    obtain e1 sv1 where a: "removeShards srv roles (shards serverRole) err sv = (e1, sv1)"
      by (cases "removeShards srv roles (shards serverRole) err sv")
    from removeShards_events [OF a] obtain evs1 where
      evs1: "snd sv1 = snd sv @ evs1"
        "\<forall>e\<in>set evs1. \<exists>s. e = EvRemoveShard s \<and> s \<in> set (shards serverRole) \<and> \<not> containsShard roles s"
      by blast
    from "2.prems" None a have "removeLoop srv roles rest e1 sv1 = (r, sv')" by simp
    from "2.IH"(1) [OF None a [symmetric] this] obtain evs2 where
      evs2: "snd sv' = snd sv1 @ evs2"
        "\<forall>e\<in>set evs2. \<exists>s. e = EvRemoveShard s \<and> \<not> containsShard roles s
            \<and> (\<exists>vr\<in>set rest. map_of roles (fst vr) = None \<and> s \<in> set (shards (snd vr)))"
      by blast
    have "snd sv' = snd sv @ (evs1 @ evs2)"
      using evs1(1) evs2(1) by simp
    moreover have "\<forall>e\<in>set (evs1 @ evs2). \<exists>s. e = EvRemoveShard s \<and> \<not> containsShard roles s
            \<and> (\<exists>vr\<in>set ((v, serverRole) # rest). map_of roles (fst vr) = None \<and> s \<in> set (shards (snd vr)))"
      using evs1(2) evs2(2) None by fastforce
    ultimately show ?thesis by blast
  qed
qed


text \<open>
  C4. In an invocation of the callback of \<open>fillRoles\<close> the events are the additions and
  the sends of the new versions, in ascending order of version, followed by the removals;
  and every \<open>RemoveShard\<close> is for a shard that no role of the current snapshot holds as
  master or replica.
\<close>

theorem fillRoles_removes_only_dead_shards:
  assumes "decodeRoles cod encodedServerRoles ([], []) = Inr (roles, versions)"
  shows "\<exists>adds removes.
           snd (snd (snd (fillRolesCallback srv cod seenRoles sv encodedServerRoles)))
             = snd sv @ adds @ removes
         \<and> (\<forall>e\<in>set adds. \<not> isRemove e)
         \<and> sorted_wrt (<) (map sint (announced adds))
         \<and> (\<forall>e\<in>set removes. \<exists>s. e = EvRemoveShard s \<and> \<not> containsShard roles s
               \<and> (\<forall>vr\<in>set roles. \<not> index_bool (Masters (snd vr)) s
                                    \<and> \<not> index_bool (Replicas (snd vr)) s))"
proof -
  let ?vs = "sort_key sint versions"
  obtain e1 seen1 sv1 where a: "applyVersions srv roles ?vs seenRoles sv = (e1, seen1, sv1)"
    by (cases "applyVersions srv roles ?vs seenRoles sv")
  have "sorted (map sint ?vs)" by (rule sorted_sort_key)
  with applyVersions_events [OF a] obtain adds where
    adds: "snd sv1 = snd sv @ adds" "\<forall>e\<in>set adds. \<not> isRemove e"
      "sorted_wrt (<) (map sint (announced adds))"
    by blast
  show ?thesis
  proof (cases e1)
    case (Some err)
    with assms a have "snd (snd (snd (fillRolesCallback srv cod seenRoles sv encodedServerRoles)))
        = snd sv @ adds @ []"
      using adds(1) by (simp add: fillRolesCallback_def)
    with adds(2,3) show ?thesis by (intro exI [of _ adds] exI [of _ "[]"]) simp
  next
    case None
    obtain e2 sv2 where r: "removeLoop srv roles seen1 None sv1 = (e2, sv2)"
      by (cases "removeLoop srv roles seen1 None sv1")
    from removeLoop_events [OF r] obtain removes where
      removes: "snd sv2 = snd sv1 @ removes"
        "\<forall>e\<in>set removes. \<exists>s. e = EvRemoveShard s \<and> \<not> containsShard roles s"
      by blast
    from assms a None r
    have "snd (snd (snd (fillRolesCallback srv cod seenRoles sv encodedServerRoles)))
        = snd sv @ adds @ removes"
      using adds(1) removes(1) by (simp add: fillRolesCallback_def)
    moreover have "\<forall>e\<in>set removes. \<exists>s. e = EvRemoveShard s \<and> \<not> containsShard roles s
               \<and> (\<forall>vr\<in>set roles. \<not> index_bool (Masters (snd vr)) s
                                    \<and> \<not> index_bool (Replicas (snd vr)) s)"
      using removes(2) by (fastforce simp: containsShard_iff)
    ultimately show ?thesis using adds(2,3) by blast
  qed
qed

theorem fillRoles_removes_only_dead_shards_witness:
  "fillRolesCallback okServer roleCodec
      [(1, \<lparr>Role_Id = ''a'', Role_Version = 1, Masters = [(0, True)], Replicas = [(1, True)]\<rparr>)]
      ((), []) [(serverRoleKeyVersion ''a'' 2, ''r2'')]
     = (Inr 0,
        [(2, \<lparr>Role_Id = ''a'', Role_Version = 2, Masters = [(0, True)], Replicas = [(2, True)]\<rparr>)],
        ((), [EvAddShard 2, EvVersion 2, EvRemoveShard 1]))
   \<and> (\<exists>adds removes.
         [EvAddShard 2, EvVersion 2, EvRemoveShard 1] = adds @ removes
         \<and> (\<forall>e\<in>set adds. \<not> isRemove e)
         \<and> (\<forall>e\<in>set removes. \<exists>s. e = EvRemoveShard s \<and> \<not> containsShard
               [(2, \<lparr>Role_Id = ''a'', Role_Version = 2, Masters = [(0, True)], Replicas = [(2, True)]\<rparr>)] s))"
proof -
  let ?r1 = "\<lparr>Role_Id = ''a'', Role_Version = 1 :: int64, Masters = [(0 :: nat, True)], Replicas = [(1 :: nat, True)]\<rparr>"
  let ?r2 = "\<lparr>Role_Id = ''a'', Role_Version = 2 :: int64, Masters = [(0 :: nat, True)], Replicas = [(2 :: nat, True)]\<rparr>"
  let ?enc = "[(serverRoleKeyVersion ''a'' 2, ''r2'')]"
  have d: "decodeRoles roleCodec ?enc ([], []) = Inr ([(2, ?r2)], [2])"
    by (simp add: roleCodec_def testCodec_def)
  have run: "fillRolesCallback okServer roleCodec [(1, ?r1)] ((), []) ?enc
      = (Inr 0, [(2, ?r2)], ((), [EvAddShard 2, EvVersion 2, EvRemoveShard 1]))"
    by (simp add: fillRolesCallback_def roleCodec_def testCodec_def shards_def zeroServerRole_def
        index_bool_def serverAddShard_def serverRemoveShard_def okServer_def)
  from fillRoles_removes_only_dead_shards [OF d, of okServer "[(1, ?r1)]" "((), [])"]
  obtain adds removes where
    h: "snd (snd (snd (fillRolesCallback okServer roleCodec [(1, ?r1)] ((), []) ?enc)))
          = snd ((), [] :: event list) @ adds @ removes"
      "\<forall>e\<in>set adds. \<not> isRemove e"
      "\<forall>e\<in>set removes. \<exists>s. e = EvRemoveShard s \<and> \<not> containsShard [(2, ?r2)] s"
    by blast
  from h(1) [unfolded run] have "[EvAddShard 2, EvVersion 2, EvRemoveShard 1] = adds @ removes"
    by simp
  with h(2,3) have ex: "\<exists>adds removes.
         [EvAddShard 2, EvVersion 2, EvRemoveShard 1] = adds @ removes
         \<and> (\<forall>e\<in>set adds. \<not> isRemove e)
         \<and> (\<forall>e\<in>set removes. \<exists>s. e = EvRemoveShard s \<and> \<not> containsShard [(2, ?r2)] s)"
    by blast
  show ?thesis using run ex by (rule conjI)
qed

lemma index_bool_update:
  "index_bool (AList.update k v m) k' = (if k' = k then v else index_bool m k')"
  by (simp add: index_bool_def update_conv')

lemma index_bool_delete:
  "index_bool (AList.delete k m) k' = (k' \<noteq> k \<and> index_bool m k')"
  by (simp add: index_bool_def delete_conv')

lemma set_update_subset: "set (AList.update k v al) \<subseteq> insert (k, v) (set al)"
  by (induction al) auto

lemma disjointRoles_update:
  assumes "disjointRoles rs"
    and "\<forall>shard. \<not> (index_bool (Masters r) shard \<and> index_bool (Replicas r) shard)"
  shows "disjointRoles (AList.update ident r rs)"
  unfolding disjointRoles_def
proof
  fix p assume "p \<in> set (AList.update ident r rs)"
  then have "p = (ident, r) \<or> p \<in> set rs"
    using set_update_subset [of ident r rs] by auto
  then show "\<forall>shard. \<not> (index_bool (Masters (snd p)) shard \<and> index_bool (Replicas (snd p)) shard)"
    using assms by (auto simp: disjointRoles_def)
qed

lemma disjointRoles_lookup:
  "disjointRoles rs \<Longrightarrow> (ident, r) \<in> set rs \<Longrightarrow>
     \<not> (index_bool (Masters r) shard \<and> index_bool (Replicas r) shard)"
  by (force simp: disjointRoles_def)

lemma disjointRoles_assignMaster:
  assumes "disjointRoles rs"
  shows "disjointRoles (fst (snd (assignMaster rs ms ident shard per rem)))"
proof (cases "map_of rs ident")
  case None
  then show ?thesis using assms by (simp add: assignMaster_def)
next
  case (Some r)
  then have "(ident, r) \<in> set rs" by (rule map_of_SomeD)
  with assms have d: "\<And>s. \<not> (index_bool (Masters r) s \<and> index_bool (Replicas r) s)"
    by (rule disjointRoles_lookup)
  show ?thesis
    using Some assms d
    by (auto simp: assignMaster_def hasShard_def index_bool_update split: if_splits
        intro!: disjointRoles_update)
qed

lemma disjointRoles_assignReplica:
  assumes "disjointRoles rs"
  shows "disjointRoles (fst (snd (assignReplica rs ms reps ident shard per rem)))"
proof (cases "map_of rs ident")
  case None
  then show ?thesis using assms by (simp add: assignReplica_def)
next
  case (Some r)
  then have "(ident, r) \<in> set rs" by (rule map_of_SomeD)
  with assms have d: "\<And>s. \<not> (index_bool (Masters r) s \<and> index_bool (Replicas r) s)"
    by (rule disjointRoles_lookup)
  show ?thesis
    using Some assms d
    by (auto simp: assignReplica_def hasShard_def index_bool_update split: if_splits
        intro!: disjointRoles_update)
qed

lemma swapServerLoop_Some:
  "swapServerLoop ro ident r shard rs = Some (swapID, sr, swapShard) \<Longrightarrow>
     (swapID, sr) \<in> set rs \<and> swapID \<noteq> ident
     \<and> swapShardLoop r sr shard (permute (ro swapID) (Replicas sr)) = Some swapShard"
  by (induction ro ident r shard rs rule: swapServerLoop.induct)
    (auto split: if_splits option.splits)

lemma swapShardLoop_Some:
  "swapShardLoop r sr shard m = Some swapShard \<Longrightarrow>
     swapShard \<in> fst ` set m \<and> \<not> hasShard r swapShard \<and> \<not> hasShard sr shard"
  by (induction r sr shard m rule: swapShardLoop.induct) (auto split: if_splits)

lemma disjointRoles_swapReplica:
  assumes "disjointRoles rs"
  shows "disjointRoles (fst (snd (swapReplica o1 o2 rs ms reps ident shard per)))"
proof (cases "map_of rs ident")
  case None
  then show ?thesis using assms by (simp add: swapReplica_def)
next
  case (Some r)
  show ?thesis
  proof (cases "swapServerLoop o2 ident r shard (permute o1 rs)")
    case None
    then show ?thesis using Some assms by (simp add: swapReplica_def)
  next
    case found: (Some t)
    obtain swapID sr swapShard where t: "t = (swapID, sr, swapShard)" by (cases t)
    from found t swapServerLoop_Some have "(swapID, sr) \<in> set (permute o1 rs)" by blast
    then have m: "(swapID, sr) \<in> set rs" by (simp add: permute_set)
    let ?sr1 = "sr\<lparr>Replicas := AList.delete swapShard (Replicas sr)\<rparr>"
    let ?rs1 = "AList.update swapID ?sr1 rs"
    from disjointRoles_lookup [OF assms m]
    have "\<forall>s. \<not> (index_bool (Masters ?sr1) s \<and> index_bool (Replicas ?sr1) s)"
      by (simp add: index_bool_delete)
    with assms have d1: "disjointRoles ?rs1" by (rule disjointRoles_update)
    obtain ok2 rs2 reps2 rem2 where
      a2: "assignReplica ?rs1 ms (removeReplica reps swapShard swapID) swapID shard MaxUint64 0
             = (ok2, rs2, reps2, rem2)"
      by (cases "assignReplica ?rs1 ms (removeReplica reps swapShard swapID) swapID shard MaxUint64 0")
    from disjointRoles_assignReplica [OF d1, of ms "removeReplica reps swapShard swapID" swapID shard MaxUint64 0]
    have d2: "disjointRoles rs2" by (simp add: a2)
    obtain ok3 rs3 reps3 rem3 where
      a3: "assignReplica rs2 ms reps2 ident swapShard per rem2 = (ok3, rs3, reps3, rem3)"
      by (cases "assignReplica rs2 ms reps2 ident swapShard per rem2")
    from disjointRoles_assignReplica [OF d2, of ms reps2 ident swapShard per rem2]
    have d3: "disjointRoles rs3" by (simp add: a3)
    show ?thesis
      using Some found t a2 a3 d3 assms by (simp add: swapReplica_def Let_def)
  qed
qed

lemma disjointRoles_tryAssignMaster:
  "disjointRoles rs \<Longrightarrow> disjointRoles (fst (snd (tryAssignMaster rs ms ids shard per rem)))"
proof (induction ids arbitrary: rs ms rem)
  case Nil
  then show ?case by simp
next
  case (Cons i ids)
  obtain ok rs' ms' rem' where a: "assignMaster rs ms i shard per rem = (ok, rs', ms', rem')"
    by (cases "assignMaster rs ms i shard per rem")
  from disjointRoles_assignMaster [OF Cons.prems, of ms i shard per rem] a
  have "disjointRoles rs'" by simp
  then show ?case using a Cons.IH [of rs' ms' rem'] by (cases ok) simp_all
qed

lemma disjointRoles_masterLoop:
  "masterLoop ord st locs states per ss rs ms rem = Some (rs', ms', rem') \<Longrightarrow>
     disjointRoles rs \<Longrightarrow> disjointRoles rs'"
proof (induction ss arbitrary: rs ms rem)
  case Nil
  then show ?case by simp
next
  case (Cons shard ss)
  obtain ok rs1 ms1 rem1 where
    a: "tryAssignMaster rs ms (candidates st locs states (ord (RangeServersMaster shard)) shard) shard per rem = (ok, rs1, ms1, rem1)"
    by (cases "tryAssignMaster rs ms (candidates st locs states (ord (RangeServersMaster shard)) shard) shard per rem")
  from disjointRoles_tryAssignMaster [OF Cons.prems(2), of ms "candidates st locs states (ord (RangeServersMaster shard)) shard" shard per rem] a
  have "disjointRoles rs1" by simp
  then show ?case using a Cons.prems(1) Cons.IH [of rs1 ms1 rem1] by (cases ok) simp_all
qed

lemma disjointRoles_tryAssignReplica:
  "disjointRoles rs \<Longrightarrow> disjointRoles (fst (snd (tryAssignReplica rs ms reps ids shard per rem)))"
proof (induction ids arbitrary: rs reps rem)
  case Nil
  then show ?case by simp
next
  case (Cons i ids)
  obtain ok rs' reps' rem' where a: "assignReplica rs ms reps i shard per rem = (ok, rs', reps', rem')"
    by (cases "assignReplica rs ms reps i shard per rem")
  from disjointRoles_assignReplica [OF Cons.prems, of ms reps i shard per rem] a
  have "disjointRoles rs'" by simp
  then show ?case using a Cons.IH [of rs' reps' rem'] by (cases ok) simp_all
qed

lemma disjointRoles_trySwapReplica:
  "disjointRoles rs \<Longrightarrow>
     disjointRoles (fst (snd (trySwapReplica ord k rs ms reps ids shard per)))"
proof (induction ids arbitrary: rs reps)
  case Nil
  then show ?case by simp
next
  case (Cons i ids)
  let ?o1 = "ord (RangeRolesSwap k shard i)"
  let ?o2 = "\<lambda>swapID. ord (RangeReplicasSwap k shard i swapID)"
  obtain ok rs' reps' where a: "swapReplica ?o1 ?o2 rs ms reps i shard per = (ok, rs', reps')"
    by (cases "swapReplica ?o1 ?o2 rs ms reps i shard per")
  from disjointRoles_swapReplica [OF Cons.prems, of ?o1 ?o2 ms reps i shard per] a
  have "disjointRoles rs'" by simp
  then show ?case using a Cons.IH [of rs' reps'] by (cases ok) simp_all
qed

lemma disjointRoles_replicaShardLoop:
  "replicaShardLoop ord k st locs states ms per ss rs reps rem = Some (rs', reps', rem') \<Longrightarrow>
     disjointRoles rs \<Longrightarrow> disjointRoles rs'"
proof (induction ss arbitrary: rs reps rem)
  case Nil
  then show ?case by simp
next
  case (Cons shard ss)
  let ?cands = "candidates st locs states (ord (RangeServersReplica k shard)) shard"
  let ?ids = "permute (ord (RangeServersSwap k shard)) (map fst states)"
  obtain ok rs1 reps1 rem1 where
    a: "tryAssignReplica rs ms reps ?cands shard per rem = (ok, rs1, reps1, rem1)"
    by (cases "tryAssignReplica rs ms reps ?cands shard per rem")
  from disjointRoles_tryAssignReplica [OF Cons.prems(2), of ms reps ?cands shard per rem] a
  have d1: "disjointRoles rs1" by simp
  show ?case
  proof (cases ok)
    case True
    with a Cons.prems(1) d1 Cons.IH [of rs1 reps1 rem1] show ?thesis by simp
  next
    case False
    obtain ok2 rs2 reps2 where
      b: "trySwapReplica ord k rs1 ms reps1 ?ids shard per = (ok2, rs2, reps2)"
      by (cases "trySwapReplica ord k rs1 ms reps1 ?ids shard per")
    from disjointRoles_trySwapReplica [OF d1, of ord k ms reps1 ?ids shard per] b
    have d2: "disjointRoles rs2" by simp
    show ?thesis using a b False Cons.prems(1) d2 Cons.IH [of rs2 reps2 rem1]
      by (cases ok2) simp_all
  qed
qed

lemma disjointRoles_replicaLoop:
  "replicaLoop ord st locs states ms per n ks rs reps rem = Some (rs', reps', rem') \<Longrightarrow>
     disjointRoles rs \<Longrightarrow> disjointRoles rs'"
proof (induction ks arbitrary: rs reps rem)
  case Nil
  then show ?case by simp
next
  case (Cons k ks)
  from Cons.prems(1) obtain rs1 reps1 rem1 where
    a: "replicaShardLoop ord k st locs states ms per [0..<n] rs reps rem = Some (rs1, reps1, rem1)"
    and b: "replicaLoop ord st locs states ms per n ks rs1 reps1 rem1 = Some (rs', reps', rem')"
    by (auto split: option.splits)
  from disjointRoles_replicaShardLoop [OF a Cons.prems(2)] have "disjointRoles rs1" .
  with b show ?case by (rule Cons.IH)
qed

lemma disjointRoles_place:
  assumes "place ord st sh locs states rs b = Some (rs', ms', reps')" and "disjointRoles rs"
  shows "disjointRoles rs'"
proof -
  obtain mp mr rp rr where b: "b = (mp, mr, rp, rr)" by (cases b)
  from assms(1) b obtain rs1 ms1 rem1 rem2 where
    m: "masterLoop ord st locs states mp [0..<NumShards sh] rs [] mr = Some (rs1, ms1, rem1)"
    and r: "replicaLoop ord st locs states ms1 rp (NumShards sh) [0..<NumReplicas sh] rs1 [] rr
              = Some (rs', reps', rem2)"
    by (auto simp: place_def split: option.splits)
  from disjointRoles_masterLoop [OF m assms(2)] have "disjointRoles rs1" .
  with r show ?thesis by (rule disjointRoles_replicaLoop)
qed

lemma fresh_disjointRoles: "fresh rs \<Longrightarrow> disjointRoles rs"
  by (simp add: fresh_def disjointRoles_def index_bool_def)

lemma length_update_le: "length (AList.update k v al) \<le> Suc (length al)"
  by (induction al) auto

lemma decodeLoop_roles:
  "decodeLoop cod v kvs (states, locs, rs) = Inr (states', locs', rs') \<Longrightarrow>
     fresh rs \<Longrightarrow> distinct (map fst rs) \<Longrightarrow>
     fresh rs' \<and> distinct (map fst rs') \<and> length rs' \<le> length rs + length kvs"
proof (induction kvs arbitrary: states locs rs)
  case Nil
  then show ?case by simp
next
  case (Cons kv kvs)
  obtain k e where kv: "kv = (k, e)" by (cases kv)
  from Cons.prems(1) kv obtain s where s: "unmarshalServerState cod e = Inr s"
    by (auto split: sum.splits)
  let ?r = "\<lparr>Role_Id = State_Id s, Role_Version = v, Masters = [], Replicas = []\<rparr>"
  let ?rs = "AList.update (State_Id s) ?r rs"
  from Cons.prems(1) kv s obtain states1 locs1 where
    rec: "decodeLoop cod v kvs (states1, locs1, ?rs) = Inr (states', locs', rs')"
    by auto
  have f: "fresh ?rs"
    using Cons.prems(2) set_update_subset [of "State_Id s" ?r rs] by (auto simp: fresh_def)
  have d: "distinct (map fst ?rs)"
    using Cons.prems(3) by (rule distinct_update)
  from Cons.IH [OF rec f d] length_update_le [of "State_Id s" ?r rs]
  show ?case by auto
qed

lemma deleteLoop_calls:
  "deleteLoop cl cod mv kvs cn = (r, cn') \<Longrightarrow>
     \<exists>calls. snd cn' = snd cn @ calls \<and> (\<forall>c\<in>set calls. \<not> isSet c)"
proof (induction kvs arbitrary: cn)
  case Nil
  then show ?case by simp
next
  case (Cons kv kvs)
  obtain k e where kv: "kv = (k, e)" by (cases kv)
  show ?case
  proof (cases "unmarshalServerRole cod e")
    case (Inl m)
    with Cons.prems kv show ?thesis by simp
  next
    case (Inr role)
    show ?thesis
    proof (cases "Role_Version role <s mv")
      case False
      with Cons.prems kv Inr have "deleteLoop cl cod mv kvs cn = (r, cn')" by simp
      from Cons.IH [OF this] show ?thesis .
    next
      case True
      obtain d cn1 where d: "clientDelete cl k cn = (d, cn1)" by (cases "clientDelete cl k cn")
      then have l: "snd cn1 = snd cn @ [CallDelete k]"
        by (auto simp: clientDelete_def split: prod.splits sum.splits)
      show ?thesis
      proof (cases d)
        case (Inl err)
        with Cons.prems kv Inr True d have "cn' = cn1" by simp
        with l show ?thesis by simp
      next
        case (Inr i)
        with Cons.prems kv \<open>unmarshalServerRole cod e = Inr role\<close> True d
        have "deleteLoop cl cod mv kvs cn1 = (r, cn')" by simp
        from Cons.IH [OF this] obtain calls where
          "snd cn' = snd cn1 @ calls" "\<forall>c\<in>set calls. \<not> isSet c" by blast
        with l have "snd cn' = snd cn @ (CallDelete k # calls) \<and> (\<forall>c\<in>set (CallDelete k # calls). \<not> isSet c)"
          by simp
        then show ?thesis by blast
      qed
    qed
  qed
qed

lemma collectGarbage_calls:
  assumes "collectGarbage ord cl cod st mv cn = (r, st1, cn1)"
  shows "version st1 = version st \<and>
     (\<exists>calls. snd cn1 = snd cn @ calls \<and> (\<forall>c\<in>set calls. \<not> isSet c))"
proof (cases "oldMinVersion st <s mv")
  case False
  with assms show ?thesis by (simp add: collectGarbage_def)
next
  case True
  obtain g cn2 where g: "clientGetAll cl serverRoleDir cn = (g, cn2)"
    by (cases "clientGetAll cl serverRoleDir cn")
  then have l: "snd cn2 = snd cn @ [CallGetAll serverRoleDir]"
    by (auto simp: clientGetAll_def split: prod.splits sum.splits)
  show ?thesis
  proof (cases g)
    case (Inl err)
    with assms True g have "cn1 = cn2" "version st1 = version st"
      by (auto simp: collectGarbage_def)
    with l show ?thesis by simp
  next
    case (Inr kvs)
    obtain d cn3 where d: "deleteLoop cl cod mv (permute (ord RangeStoredRoles) kvs) cn2 = (d, cn3)"
      by (cases "deleteLoop cl cod mv (permute (ord RangeStoredRoles) kvs) cn2")
    with assms True g Inr have e: "cn1 = cn3" "version st1 = version st"
      by (auto simp: collectGarbage_def)
    from deleteLoop_calls [OF d] obtain calls where
      "snd cn3 = snd cn2 @ calls" "\<forall>c\<in>set calls. \<not> isSet c" by blast
    with l e have "snd cn1 = snd cn @ (CallGetAll serverRoleDir # calls)
        \<and> (\<forall>c\<in>set (CallGetAll serverRoleDir # calls). \<not> isSet c)"
      by simp
    with e(2) show ?thesis by blast
  qed
qed

lemma publishes_mono: "set rs \<subseteq> set rs' \<Longrightarrow> publishes cod v rs c \<Longrightarrow> publishes cod v rs' c"
  by (auto simp: publishes_def)

lemma publishLoop_calls:
  "publishLoop ord cl cod v states rs addrs cn = (res, cn') \<Longrightarrow>
     \<exists>calls. snd cn' = snd cn @ calls \<and> (\<forall>c\<in>set calls. publishes cod v rs c)"
proof (induction rs arbitrary: addrs cn)
  case Nil
  then show ?case by simp
next
  case (Cons p rs)
  obtain i r where p: "p = (i, r)" by (cases p)
  show ?case
  proof (cases "marshalServerRole cod r")
    case (Inl m)
    with Cons.prems p show ?thesis by simp
  next
    case (Inr e)
    obtain s cn1 where s: "clientSet cl (serverRoleKeyVersion i v) e 0 cn = (s, cn1)"
      by (cases "clientSet cl (serverRoleKeyVersion i v) e 0 cn")
    then have l: "snd cn1 = snd cn @ [CallSet (serverRoleKeyVersion i v) e 0]"
      by (auto simp: clientSet_def split: prod.splits sum.splits)
    have w: "publishes cod v (p # rs) (CallSet (serverRoleKeyVersion i v) e 0)"
      using Inr p by (auto simp: publishes_def)
    show ?thesis
    proof (cases "\<exists>addrs2. publishLoop ord cl cod v states rs addrs2 cn1 = (res, cn')")
      case True
      then obtain addrs2 where "publishLoop ord cl cod v states rs addrs2 cn1 = (res, cn')" ..
      from Cons.IH [OF this] obtain calls where
        c: "snd cn' = snd cn1 @ calls" "\<forall>c\<in>set calls. publishes cod v rs c" by blast
      have "\<forall>c\<in>set calls. publishes cod v (p # rs) c"
        using c(2) publishes_mono [of rs "p # rs"] by auto
      with c(1) l w have "snd cn' = snd cn @ (CallSet (serverRoleKeyVersion i v) e 0 # calls)
          \<and> (\<forall>c\<in>set (CallSet (serverRoleKeyVersion i v) e 0 # calls). publishes cod v (p # rs) c)"
        by simp
      then show ?thesis by blast
    next
      case False
      with Cons.prems p Inr s have "cn' = cn1"
        by (auto simp: Let_def split: sum.splits)
      with l w have "snd cn' = snd cn @ [CallSet (serverRoleKeyVersion i v) e 0]
          \<and> (\<forall>c\<in>set [CallSet (serverRoleKeyVersion i v) e 0]. publishes cod v (p # rs) c)"
        by simp
      then show ?thesis by blast
    qed
  qed
qed

lemma publish_calls:
  assumes "publish ord cl cod sh st states (rs, ms, reps) cn = (res, st', cn')"
  shows "(\<exists>calls. snd cn' = snd cn @ calls \<and> (\<forall>c\<in>set calls. publishes cod (version st) rs c))
       \<and> (st' = st \<or> oldRoles st' = rs)"
proof -
  obtain pr cn2 where
    pl: "publishLoop ord cl cod (version st) states (permute (ord RangeRolesPublish) rs)
           (initAddresses [0..<NumShards sh] []) cn = (pr, cn2)"
    by (cases "publishLoop ord cl cod (version st) states (permute (ord RangeRolesPublish) rs)
           (initAddresses [0..<NumShards sh] []) cn")
  from publishLoop_calls [OF pl] obtain calls where
    c0: "snd cn2 = snd cn @ calls"
      "\<forall>c\<in>set calls. publishes cod (version st) (permute (ord RangeRolesPublish) rs) c"
    by blast
  have c: "snd cn2 = snd cn @ calls" "\<forall>c\<in>set calls. publishes cod (version st) rs c"
    using c0 publishes_mono [of "permute (ord RangeRolesPublish) rs" rs]
    by (simp_all add: permute_set)
  have early: ?thesis if "cn' = cn2" "st' = st"
    using that c by blast
  show ?thesis
  proof (cases pr)
    case (Inl err)
    with assms pl have "cn' = cn2" "st' = st" by (simp_all add: publish_def)
    then show ?thesis by (rule early)
  next
    case (Inr addrs)
    show ?thesis
    proof (cases "marshalAddresses cod \<lparr>Addr_Version = version st, Addr_Addresses = addrs\<rparr>")
      case (Inl m)
      with assms pl Inr have "cn' = cn2" "st' = st" by (simp_all add: publish_def)
      then show ?thesis by (rule early)
    next
      case enc: (Inr e)
      obtain s cn3 where s: "clientSet cl (addressesKey (version st)) e 0 cn2 = (s, cn3)"
        by (cases "clientSet cl (addressesKey (version st)) e 0 cn2")
      from s have l: "snd cn3 = snd cn2 @ [CallSet (addressesKey (version st)) e 0]"
        by (auto simp: clientSet_def split: prod.splits sum.splits)
      from assms pl Inr enc s have both: "cn' = cn3 \<and> (st' = st \<or> oldRoles st' = rs)"
        by (cases s) (auto simp: publish_def)
      then have cn': "cn' = cn3" and st': "st' = st \<or> oldRoles st' = rs"
        by simp_all
      have "publishes cod (version st) rs (CallSet (addressesKey (version st)) e 0)"
        by (auto simp: publishes_def)
      with c l cn' have "snd cn' = snd cn @ (calls @ [CallSet (addressesKey (version st)) e 0])
        \<and> (\<forall>c\<in>set (calls @ [CallSet (addressesKey (version st)) e 0]). publishes cod (version st) rs c)"
        by auto
      with st' show ?thesis by blast
    qed
  qed
qed

lemma budgets_eq:
  "0 < n \<Longrightarrow> budgets sh n =
     Inr (NumShards sh div n, NumShards sh mod n,
          ((NumShards sh * NumReplicas sh) mod 2 ^ 64) div n,
          ((NumShards sh * NumReplicas sh) mod 2 ^ 64) mod n)"
  by (simp add: budgets_def udiv_def umod_def)

lemma assignRolesCallback_calls:
  assumes "assignRolesCallback ord cl cod sh st cn enc = (res, st', cn')"
  shows "\<exists>calls rs. snd cn' = snd cn @ calls
     \<and> (\<forall>c\<in>set calls. isSet c \<longrightarrow> publishes cod (version st) rs c)
     \<and> (version st' \<noteq> version st \<longrightarrow> oldRoles st' = rs)
     \<and> (rs = [] \<or> (\<exists>states locs newRoles st1 ms reps.
           enc \<noteq> []
         \<and> decodeLoop cod (version st) enc ([], [], []) = Inr (states, locs, newRoles)
         \<and> place ord st1 sh locs states newRoles
             (NumShards sh div length enc, NumShards sh mod length enc,
              ((NumShards sh * NumReplicas sh) mod 2 ^ 64) div length enc,
              ((NumShards sh * NumReplicas sh) mod 2 ^ 64) mod length enc) = Some (rs, ms, reps)))"
proof -
  let ?b = "(NumShards sh div length enc, NumShards sh mod length enc,
              ((NumShards sh * NumReplicas sh) mod 2 ^ 64) div length enc,
              ((NumShards sh * NumReplicas sh) mod 2 ^ 64) mod length enc)"
  have quiet: ?thesis if "snd cn' = snd cn @ calls" "\<forall>c\<in>set calls. \<not> isSet c" "version st' = version st"
    for calls
    using that by (intro exI [of _ calls] exI [of _ "[]"]) simp
  show ?thesis
  proof (cases "enc = []")
    case True
    with assms have "cn' = cn" "st' = st" by (simp_all add: assignRolesCallback_def)
    then show ?thesis using quiet [of "[]"] by simp
  next
    case False
    then have b: "budgets sh (length enc) = Inr ?b" by (simp add: budgets_eq)
    show ?thesis
    proof (cases "decodeLoop cod (version st) enc ([], [], [])")
      case (Inl e)
      with assms False b have "cn' = cn" "st' = st" by (simp_all add: assignRolesCallback_def)
      then show ?thesis using quiet [of "[]"] by simp
    next
      case (Inr d)
      obtain states locs newRoles where d: "d = (states, locs, newRoles)" by (cases d)
      obtain g st1 cn1 where
        g: "collectGarbage ord cl cod st (minVersionLoop states MaxInt64) cn = (g, st1, cn1)"
        by (cases "collectGarbage ord cl cod st (minVersionLoop states MaxInt64) cn")
      from collectGarbage_calls [OF g] obtain calls1 where
        v1: "version st1 = version st" and c1: "snd cn1 = snd cn @ calls1" "\<forall>c\<in>set calls1. \<not> isSet c"
        by blast
      show ?thesis
      proof (cases "cn' = cn1 \<and> st' = st1")
        case True
        with v1 c1 show ?thesis using quiet [of calls1] by simp
      next
        case False
        note facts = assms \<open>enc \<noteq> []\<close> b Inr d
        have g0: "g = None"
        proof (cases g)
          case (Some err)
          with facts g have "cn' = cn1 \<and> st' = st1" by (simp add: assignRolesCallback_def)
          with False show ?thesis by simp
        qed
        have ns: "\<not> sameServers (oldServerStates st1) states"
        proof
          assume "sameServers (oldServerStates st1) states"
          with facts g g0 have "cn' = cn1 \<and> st' = st1" by (simp add: assignRolesCallback_def)
          with False show False by simp
        qed
        obtain p where p: "place ord st1 sh locs states newRoles ?b = Some p"
        proof (cases "place ord st1 sh locs states newRoles ?b")
          case None
          with facts g g0 ns have "cn' = cn1 \<and> st' = st1" by (simp add: assignRolesCallback_def)
          with False show ?thesis by simp
        next
          case (Some p)
          then show ?thesis by (rule that)
        qed
        from facts g g0 ns p have pub: "publish ord cl cod sh st1 states p cn1 = (res, st', cn')"
          by (simp add: assignRolesCallback_def)
        obtain rs ms reps where pp: "p = (rs, ms, reps)" by (cases p)
        from publish_calls [OF pub [unfolded pp]] obtain calls2 where
          c2: "snd cn' = snd cn1 @ calls2" "\<forall>c\<in>set calls2. publishes cod (version st1) rs c"
          and s2: "st' = st1 \<or> oldRoles st' = rs"
          by blast
        have 1: "snd cn' = snd cn @ (calls1 @ calls2)" using c1(1) c2(1) by simp
        have 2: "\<forall>c\<in>set (calls1 @ calls2). isSet c \<longrightarrow> publishes cod (version st) rs c"
          using c1(2) c2(2) v1 by auto
        have 3: "version st' \<noteq> version st \<longrightarrow> oldRoles st' = rs"
          using s2 v1 by auto
        have 4: "\<exists>states locs newRoles st1 ms reps. enc \<noteq> []
            \<and> decodeLoop cod (version st) enc ([], [], []) = Inr (states, locs, newRoles)
            \<and> place ord st1 sh locs states newRoles ?b = Some (rs, ms, reps)"
          using \<open>enc \<noteq> []\<close> Inr d p pp by blast
        show ?thesis using 1 2 3 4 by blast
      qed
    qed
  qed
qed

text \<open>
  A run of the callback on three servers, three shards and one replica, where the range
  for the replica of shard 0 comes in another order than the ranges before it: server
  \<open>c\<close> takes the replica of shard 0 and \<open>b\<close> that of shard 2.
\<close>

lemma assignRolesCallback_three_servers:
  "assignRolesCallback redrawn memClient codec2 \<lparr>NumShards = 3, NumReplicas = 1\<rparr> newAssigner ([], [])
      [(serverStateKey ''a'', ''a''), (serverStateKey ''b'', ''b''), (serverStateKey ''c'', ''c'')]
   = (Inr 0,
      \<lparr>version = 1,
       oldServerStates =
         [(''a'', \<lparr>State_Id = ''a'', State_Address = ''addr-a'', State_Version = - 1, State_Shards = []\<rparr>),
          (''b'', \<lparr>State_Id = ''b'', State_Address = ''addr-b'', State_Version = - 1, State_Shards = []\<rparr>),
          (''c'', \<lparr>State_Id = ''c'', State_Address = ''addr-c'', State_Version = - 1, State_Shards = []\<rparr>)],
       oldRoles =
         [(''a'', \<lparr>Role_Id = ''a'', Role_Version = 0, Masters = [(0, True)], Replicas = [(1, True)]\<rparr>),
          (''b'', \<lparr>Role_Id = ''b'', Role_Version = 0, Masters = [(1, True)], Replicas = [(2, True)]\<rparr>),
          (''c'', \<lparr>Role_Id = ''c'', Role_Version = 0, Masters = [(2, True)], Replicas = [(0, True)]\<rparr>)],
       oldMasters = [(0, ''a''), (1, ''b''), (2, ''c'')],
       oldReplicas = [(0, [''c'']), (1, [''a'']), (2, [''b''])],
       oldMinVersion = 0\<rparr>,
      ([(serverRoleKeyVersion ''a'' 0, ''a''), (serverRoleKeyVersion ''b'' 0, ''b''),
        (serverRoleKeyVersion ''c'' 0, ''c''), (addressesKey 0, ''v'')],
       [CallSet (serverRoleKeyVersion ''a'' 0) ''a'' 0,
        CallSet (serverRoleKeyVersion ''b'' 0) ''b'' 0,
        CallSet (serverRoleKeyVersion ''c'' 0) ''c'' 0,
        CallSet (addressesKey 0) ''v'' 0]))"
proof -
  let ?enc = "[(serverStateKey ''a'', ''a''), (serverStateKey ''b'', ''b''), (serverStateKey ''c'', ''c'')]"
  let ?sh = "\<lparr>NumShards = 3, NumReplicas = 1\<rparr>"
  let ?states = "[(''a'', \<lparr>State_Id = ''a'', State_Address = ''addr-a'', State_Version = - 1 :: int64, State_Shards = []\<rparr>),
          (''b'', \<lparr>State_Id = ''b'', State_Address = ''addr-b'', State_Version = - 1, State_Shards = []\<rparr>),
          (''c'', \<lparr>State_Id = ''c'', State_Address = ''addr-c'', State_Version = - 1, State_Shards = []\<rparr>)]"
  let ?roles0 = "[(''a'', \<lparr>Role_Id = ''a'', Role_Version = 0 :: int64, Masters = [], Replicas = []\<rparr>),
          (''b'', \<lparr>Role_Id = ''b'', Role_Version = 0, Masters = [], Replicas = []\<rparr>),
          (''c'', \<lparr>Role_Id = ''c'', Role_Version = 0, Masters = [], Replicas = []\<rparr>)]"
  let ?pub = "[(''a'', \<lparr>Role_Id = ''a'', Role_Version = 0 :: int64, Masters = [(0 :: nat, True)], Replicas = [(1 :: nat, True)]\<rparr>),
          (''b'', \<lparr>Role_Id = ''b'', Role_Version = 0, Masters = [(1, True)], Replicas = [(2, True)]\<rparr>),
          (''c'', \<lparr>Role_Id = ''c'', Role_Version = 0, Masters = [(2, True)], Replicas = [(0, True)]\<rparr>)]"
  let ?ms = "[(0 :: nat, ''a''), (1, ''b''), (2, ''c'')]"
  let ?reps = "[(0 :: nat, [''c'']), (1, [''a'']), (2, [''b''])]"
  have ne: "(length ?enc = 0) = False" by simp
  have len: "length ?enc = 3" by simp
  have b: "budgets ?sh (length ?enc) = Inr (1, 0, 1, 0)"
    unfolding len by (simp add: budgets_def udiv_def umod_def)
  have v0: "version newAssigner = 0" "oldServerStates newAssigner = []"
    by (simp_all add: newAssigner_def)
  have d: "decodeLoop codec2 0 ?enc ([], [], []) = Inr (?states, [], ?roles0)"
    by (simp add: codec2_def testCodec_def)
  have mv: "minVersionLoop ?states MaxInt64 = - 1"
    by (simp add: MaxInt64_def word_sless_alt)
  have g: "collectGarbage redrawn memClient codec2 newAssigner (- 1) ([], []) = (None, newAssigner, ([], []))"
    by (simp add: collectGarbage_def newAssigner_def word_sless_alt)
  have ss: "sameServers [] ?states = False"
    by (simp add: sameServers_def)
  have pl: "place redrawn newAssigner ?sh [] ?states ?roles0 (1, 0, 1, 0) = Some (?pub, ?ms, ?reps)"
    by (simp add: place_def candidates_def assignMaster_def assignReplica_def hasShard_def
        index_bool_def index_list_def newAssigner_def upt_rec)
  have pub: "publish redrawn memClient codec2 ?sh newAssigner ?states (?pub, ?ms, ?reps) ([], [])
      = (Inr 0,
         \<lparr>version = 1, oldServerStates = ?states, oldRoles = ?pub,
          oldMasters = ?ms, oldReplicas = ?reps, oldMinVersion = 0\<rparr>,
         ([(serverRoleKeyVersion ''a'' 0, ''a''), (serverRoleKeyVersion ''b'' 0, ''b''),
           (serverRoleKeyVersion ''c'' 0, ''c''), (addressesKey 0, ''v'')],
          [CallSet (serverRoleKeyVersion ''a'' 0) ''a'' 0,
           CallSet (serverRoleKeyVersion ''b'' 0) ''b'' 0,
           CallSet (serverRoleKeyVersion ''c'' 0) ''c'' 0,
           CallSet (addressesKey 0) ''v'' 0]))"
    by (simp add: publish_def clientSet_def memClient_def codec2_def testCodec_def newAssigner_def
        upt_rec Let_def)
  show ?thesis
    by (simp only: assignRolesCallback_def ne if_False b sum.case prod.case v0 d mv g
        option.case ss pl pub)
qed

text \<open>
  C2. No server is master and replica of the same shard: \<open>assignMaster\<close>,
  \<open>assignReplica\<close> and \<open>swapReplica\<close> keep that property of the role map, whatever the
  orders of the ranges; and it holds of the roles of every publication: whatever the
  callback of \<open>AssignRoles\<close> writes to the store, under any order of any of its ranges,
  is an entry of roles \<open>published\<close> with the property, and \<open>published\<close> is what the
  assigner remembers when it has advanced the version.
\<close>

theorem no_master_and_replica:
  "(disjointRoles rs \<longrightarrow>
      disjointRoles (fst (snd (assignMaster rs ms ident shard per rem)))
    \<and> disjointRoles (fst (snd (assignReplica rs ms reps ident shard per rem)))
    \<and> disjointRoles (fst (snd (swapReplica rolesOrder replicasOrder rs ms reps ident shard per))))
   \<and> (assignRolesCallback ord cl cod sh st cn enc = (res, st', cn') \<longrightarrow>
        (\<exists>calls published. snd cn' = snd cn @ calls
           \<and> (\<forall>c\<in>set calls. isSet c \<longrightarrow> publishes cod (version st) published c)
           \<and> (version st' \<noteq> version st \<longrightarrow> oldRoles st' = published)
           \<and> disjointRoles published))"
proof -
  have steps: "disjointRoles (fst (snd (assignMaster rs ms ident shard per rem)))
    \<and> disjointRoles (fst (snd (assignReplica rs ms reps ident shard per rem)))
    \<and> disjointRoles (fst (snd (swapReplica rolesOrder replicasOrder rs ms reps ident shard per)))"
    if "disjointRoles rs"
    using that
    by (intro conjI disjointRoles_assignMaster disjointRoles_assignReplica disjointRoles_swapReplica)
  have pub: "\<exists>calls published. snd cn' = snd cn @ calls
           \<and> (\<forall>c\<in>set calls. isSet c \<longrightarrow> publishes cod (version st) published c)
           \<and> (version st' \<noteq> version st \<longrightarrow> oldRoles st' = published)
           \<and> disjointRoles published"
    if run: "assignRolesCallback ord cl cod sh st cn enc = (res, st', cn')"
  proof -
    from assignRolesCallback_calls [OF run] obtain calls published where
      c: "snd cn' = snd cn @ calls"
        "\<forall>c\<in>set calls. isSet c \<longrightarrow> publishes cod (version st) published c"
        "version st' \<noteq> version st \<longrightarrow> oldRoles st' = published"
      and p: "published = [] \<or> (\<exists>states locs newRoles st1 ms reps.
           enc \<noteq> []
         \<and> decodeLoop cod (version st) enc ([], [], []) = Inr (states, locs, newRoles)
         \<and> place ord st1 sh locs states newRoles
             (NumShards sh div length enc, NumShards sh mod length enc,
              ((NumShards sh * NumReplicas sh) mod 2 ^ 64) div length enc,
              ((NumShards sh * NumReplicas sh) mod 2 ^ 64) mod length enc) = Some (published, ms, reps))"
      by blast
    have "disjointRoles published"
    proof (cases "published = []")
      case True
      then show ?thesis by (simp add: disjointRoles_def)
    next
      case False
      with p obtain states locs newRoles st1 ms reps b where
        d: "decodeLoop cod (version st) enc ([], [], []) = Inr (states, locs, newRoles)"
        and pl: "place ord st1 sh locs states newRoles b = Some (published, ms, reps)"
        by blast
      from decodeLoop_roles [OF d] have "fresh newRoles" by (simp add: fresh_def)
      then have "disjointRoles newRoles" by (rule fresh_disjointRoles)
      with pl show ?thesis by (rule disjointRoles_place)
    qed
    with c show ?thesis by blast
  qed
  show ?thesis using steps pub by blast
qed

theorem no_master_and_replica_witness:
  "disjointRoles
     [(''a'', \<lparr>Role_Id = ''a'', Role_Version = 0, Masters = [(0, True)], Replicas = []\<rparr>),
      (''b'', \<lparr>Role_Id = ''b'', Role_Version = 0, Masters = [(1, True)], Replicas = [(2, True)]\<rparr>)]
   \<and> swapReplica [] (\<lambda>swapID. [])
       [(''a'', \<lparr>Role_Id = ''a'', Role_Version = 0, Masters = [(0, True)], Replicas = []\<rparr>),
        (''b'', \<lparr>Role_Id = ''b'', Role_Version = 0, Masters = [(1, True)], Replicas = [(2, True)]\<rparr>)]
       [(0, ''a''), (1, ''b'')] [(2, [''b''])] ''a'' 0 1
     = (True,
        [(''a'', \<lparr>Role_Id = ''a'', Role_Version = 0, Masters = [(0, True)], Replicas = [(2, True)]\<rparr>),
         (''b'', \<lparr>Role_Id = ''b'', Role_Version = 0, Masters = [(1, True)], Replicas = [(0, True)]\<rparr>)],
        [(2, [''a'']), (0, [''b''])])
   \<and> disjointRoles
     [(''a'', \<lparr>Role_Id = ''a'', Role_Version = 0, Masters = [(0, True)], Replicas = [(2, True)]\<rparr>),
      (''b'', \<lparr>Role_Id = ''b'', Role_Version = 0, Masters = [(1, True)], Replicas = [(0, True)]\<rparr>)]
   \<and> snd (snd (assignRolesCallback redrawn memClient codec2 \<lparr>NumShards = 3, NumReplicas = 1\<rparr>
          newAssigner ([], [])
          [(serverStateKey ''a'', ''a''), (serverStateKey ''b'', ''b''), (serverStateKey ''c'', ''c'')]))
     = ([(serverRoleKeyVersion ''a'' 0, ''a''), (serverRoleKeyVersion ''b'' 0, ''b''),
         (serverRoleKeyVersion ''c'' 0, ''c''), (addressesKey 0, ''v'')],
        [CallSet (serverRoleKeyVersion ''a'' 0) ''a'' 0,
         CallSet (serverRoleKeyVersion ''b'' 0) ''b'' 0,
         CallSet (serverRoleKeyVersion ''c'' 0) ''c'' 0,
         CallSet (addressesKey 0) ''v'' 0])
   \<and> oldRoles (fst (snd (assignRolesCallback redrawn memClient codec2 \<lparr>NumShards = 3, NumReplicas = 1\<rparr>
          newAssigner ([], [])
          [(serverStateKey ''a'', ''a''), (serverStateKey ''b'', ''b''), (serverStateKey ''c'', ''c'')])))
     = [(''a'', \<lparr>Role_Id = ''a'', Role_Version = 0, Masters = [(0, True)], Replicas = [(1, True)]\<rparr>),
        (''b'', \<lparr>Role_Id = ''b'', Role_Version = 0, Masters = [(1, True)], Replicas = [(2, True)]\<rparr>),
        (''c'', \<lparr>Role_Id = ''c'', Role_Version = 0, Masters = [(2, True)], Replicas = [(0, True)]\<rparr>)]
   \<and> disjointRoles
     [(''a'', \<lparr>Role_Id = ''a'', Role_Version = 0, Masters = [(0, True)], Replicas = [(1, True)]\<rparr>),
      (''b'', \<lparr>Role_Id = ''b'', Role_Version = 0, Masters = [(1, True)], Replicas = [(2, True)]\<rparr>),
      (''c'', \<lparr>Role_Id = ''c'', Role_Version = 0, Masters = [(2, True)], Replicas = [(0, True)]\<rparr>)]"
proof -
  let ?rs = "[(''a'', \<lparr>Role_Id = ''a'', Role_Version = 0 :: int64, Masters = [(0 :: nat, True)], Replicas = []\<rparr>),
      (''b'', \<lparr>Role_Id = ''b'', Role_Version = 0, Masters = [(1, True)], Replicas = [(2, True)]\<rparr>)]"
  let ?rs' = "[(''a'', \<lparr>Role_Id = ''a'', Role_Version = 0 :: int64, Masters = [(0 :: nat, True)], Replicas = [(2 :: nat, True)]\<rparr>),
      (''b'', \<lparr>Role_Id = ''b'', Role_Version = 0, Masters = [(1, True)], Replicas = [(0, True)]\<rparr>)]"
  let ?pub = "[(''a'', \<lparr>Role_Id = ''a'', Role_Version = 0 :: int64, Masters = [(0 :: nat, True)], Replicas = [(1 :: nat, True)]\<rparr>),
      (''b'', \<lparr>Role_Id = ''b'', Role_Version = 0, Masters = [(1, True)], Replicas = [(2, True)]\<rparr>),
      (''c'', \<lparr>Role_Id = ''c'', Role_Version = 0, Masters = [(2, True)], Replicas = [(0, True)]\<rparr>)]"
  let ?calls = "[CallSet (serverRoleKeyVersion ''a'' 0) ''a'' 0,
          CallSet (serverRoleKeyVersion ''b'' 0) ''b'' 0,
          CallSet (serverRoleKeyVersion ''c'' 0) ''c'' 0,
          CallSet (addressesKey 0) ''v'' 0]"
  let ?enc = "[(serverStateKey ''a'', ''a''), (serverStateKey ''b'', ''b''), (serverStateKey ''c'', ''c'')]"
  let ?st' = "\<lparr>version = 1,
       oldServerStates =
         [(''a'', \<lparr>State_Id = ''a'', State_Address = ''addr-a'', State_Version = - 1, State_Shards = []\<rparr>),
          (''b'', \<lparr>State_Id = ''b'', State_Address = ''addr-b'', State_Version = - 1, State_Shards = []\<rparr>),
          (''c'', \<lparr>State_Id = ''c'', State_Address = ''addr-c'', State_Version = - 1, State_Shards = []\<rparr>)],
       oldRoles = ?pub,
       oldMasters = [(0, ''a''), (1, ''b''), (2, ''c'')],
       oldReplicas = [(0, [''c'']), (1, [''a'']), (2, [''b''])],
       oldMinVersion = 0\<rparr>"
  let ?cn' = "([(serverRoleKeyVersion ''a'' 0, ''a''), (serverRoleKeyVersion ''b'' 0, ''b''),
        (serverRoleKeyVersion ''c'' 0, ''c''), (addressesKey 0, ''v'')], ?calls)"
  have d: "disjointRoles ?rs"
    by (auto simp: disjointRoles_def index_bool_def)
  have swap: "swapReplica [] (\<lambda>swapID. []) ?rs [(0, ''a''), (1, ''b'')] [(2, [''b''])] ''a'' 0 1
      = (True, ?rs', [(2, [''a'']), (0, [''b''])])"
    by (simp add: swapReplica_def assignReplica_def removeReplica_def hasShard_def index_bool_def
        index_list_def MaxUint64_def Let_def)
  have run: "assignRolesCallback redrawn memClient codec2 \<lparr>NumShards = 3, NumReplicas = 1\<rparr>
      newAssigner ([], []) ?enc = (Inr 0, ?st', ?cn')"
    by (rule assignRolesCallback_three_servers)
  note inst = no_master_and_replica [of ?rs "[(0, ''a''), (1, ''b'')]" "''a''" 0 1 0 "[(2, [''b''])]"
      "[]" "\<lambda>swapID. []" redrawn
      memClient codec2 "\<lparr>NumShards = 3, NumReplicas = 1\<rparr>" newAssigner "([], [])" ?enc "Inr 0" ?st' ?cn']
  have "disjointRoles (fst (snd (swapReplica [] (\<lambda>swapID. []) ?rs [(0, ''a''), (1, ''b'')] [(2, [''b''])] ''a'' 0 1)))"
    by (rule inst [THEN conjunct1, rule_format, OF d, THEN conjunct2, THEN conjunct2])
  then have d': "disjointRoles ?rs'" unfolding swap by simp
  from inst [THEN conjunct2, rule_format, OF run] obtain calls published where
    p: "snd ?cn' = snd ([] :: (key, string) gomap, [] :: call list) @ calls
      \<and> (\<forall>c\<in>set calls. isSet c \<longrightarrow> publishes codec2 (version newAssigner) published c)
      \<and> (version ?st' \<noteq> version newAssigner \<longrightarrow> oldRoles ?st' = published)
      \<and> disjointRoles published"
    by (elim exE)
  from p have p2: "version ?st' \<noteq> version newAssigner \<longrightarrow> oldRoles ?st' = published"
    by (elim conjE)
  from p have p3: "disjointRoles published"
    by (elim conjE)
  from p2 have "?pub = published" by (simp add: newAssigner_def)
  with p3 have dp: "disjointRoles ?pub" by simp
  show ?thesis
    unfolding run swap using d d' dp by simp
qed

end
